theory Spec2Isabelle
  imports Main "HOL-Library.Word"
begin

unbundle bit_operations_syntax

section \<open>Directory-entry validator (fatx/analysis/orphan.py)\<close>

subsection \<open>Data\<close>

text \<open>
  A Python \<open>bytes\<close> object is a sequence of integers in \<open>0..255\<close>: a list of 8-bit words.
  Python integers are unbounded: \<open>int\<close>.
\<close>

type_synonym byte = "8 word"

text \<open>
  Modelled from the spec: the timestamp type belongs to the directory-entry base type, which
  orphan.py imports from \<open>fatx.filesystem.dirent\<close> and which is not in these sources. A
  timestamp is a calendar value with the six attributes that \<open>is_valid_date\<close> reads:
  \<open>year\<close>, \<open>month\<close>, \<open>day\<close>, \<open>hour\<close>, \<open>min\<close> and \<open>sec\<close>. The field \<open>min\<close> is named
  \<open>min_ts\<close> here since \<open>min\<close> is the minimum of HOL.
\<close>

record FatXTimeStamp =
  year :: int
  month :: int
  day :: int
  hour :: int
  min_ts :: int
  sec :: int

text \<open>
  Modelled from the spec: the fields of a recovered directory entry are declared by the base
  type \<open>FatXDirent\<close>, which is not in these sources; they are the fields the spec lists for
  a directory-entry candidate and that orphan.py reads. Each timestamp may be absent.
  \<open>is_directory\<close>, a method of the base type, is the variant discriminator of the spec: a
  field here. The entry's children are entries again, so the type is a recursive datatype
  with selectors rather than a record.
\<close>

datatype FatXOrphan = FatXOrphan
  (file_name_bytes: "byte list")
  (file_name: string)
  (first_cluster: int)
  (file_size: int)
  (attributes: int)
  (creation_time: "FatXTimeStamp option")
  (last_write_time: "FatXTimeStamp option")
  (last_access_time: "FatXTimeStamp option")
  (is_directory: bool)
  (children: "FatXOrphan list")

subsection \<open>The allowed file-name bytes\<close>

definition ascii_uppercase :: string where
  "ascii_uppercase = ''ABCDEFGHIJKLMNOPQRSTUVWXYZ''"

definition ascii_lowercase :: string where
  "ascii_lowercase = ''abcdefghijklmnopqrstuvwxyz''"

definition digits :: string where
  "digits = ''0123456789''"

text \<open>Encoding an ASCII string in code page 437 gives its character codes.\<close>

definition encode_ascii :: "string \<Rightarrow> byte list" where
  "encode_ascii s = map of_char s"

text \<open>
  \<open>VALID_CHARS\<close>, part by part as the source concatenates them. The punctuation literal
  of the source is \<open>!#$%&'()-@[]^_`{}~\<close> followed by a space; it is given by its codes.
  The two long literals of code page 437 characters encode to the bytes \<open>0x80..0xE4\<close> and
  \<open>0xE6..0xFE\<close>, as the source's comments say.
\<close>

definition punctuation_bytes :: "byte list" where
  "punctuation_bytes =
     [0x21, 0x23, 0x24, 0x25, 0x26, 0x27, 0x28, 0x29, 0x2D, 0x40, 0x5B, 0x5D, 0x5E, 0x5F,
      0x60, 0x7B, 0x7D, 0x7E, 0x20]"

definition VALID_CHARS_list :: "byte list" where
  "VALID_CHARS_list =
     (encode_ascii (ascii_uppercase @ digits) @ punctuation_bytes) @
     encode_ascii (ascii_lowercase @ ''.[]'') @
     map of_nat [0x80 ..< 0xE5] @
     map of_nat [0xE6 ..< 0xFF] @
     [0xFF] @
     [0x9D] @
     [0xE5]"

definition VALID_CHARS :: "byte set" where
  "VALID_CHARS = set VALID_CHARS_list"

subsection \<open>The checks of \<open>is_valid\<close>\<close>

text \<open>
  \<open>VALID_FILE_ATTRIBUTES\<close> is imported from \<open>fatx.filesystem.constants\<close>; the mask is a
  parameter, \<open>V\<close>. On Python's unbounded integers \<open>~\<close> and \<open>&\<close> are the bit operations
  of \<open>int\<close>.
\<close>

definition is_valid_attributes :: "int \<Rightarrow> int \<Rightarrow> bool" where
  "is_valid_attributes V attr = ((attr AND (NOT V)) = 0)"

text \<open>
  The constructor \<open>datetime(year, month, day, hour, minute, second)\<close> of Python's
  standard library raises \<open>ValueError\<close> when an argument is out of range: the year in
  \<open>1..9999\<close>, the month in \<open>1..12\<close>, the day in \<open>1..\<close> the number of days of that month
  of that year, the hour in \<open>0..23\<close>, minute and second in \<open>0..59\<close>.
\<close>

datatype py_error = ValueError

definition is_leap :: "int \<Rightarrow> bool" where
  "is_leap y = (y mod 4 = 0 \<and> (y mod 100 \<noteq> 0 \<or> y mod 400 = 0))"

definition days_in_month :: "int \<Rightarrow> int \<Rightarrow> int" where
  "days_in_month y m =
     (if m = 2 then (if is_leap y then 29 else 28)
      else if m = 4 \<or> m = 6 \<or> m = 9 \<or> m = 11 then 30
      else 31)"

definition datetime :: "int \<Rightarrow> int \<Rightarrow> int \<Rightarrow> int \<Rightarrow> int \<Rightarrow> int \<Rightarrow> py_error + FatXTimeStamp" where
  "datetime y mo d h mi s =
     (if 1 \<le> y \<and> y \<le> 9999 \<and> 1 \<le> mo \<and> mo \<le> 12 \<and> 1 \<le> d \<and> d \<le> days_in_month y mo \<and>
         0 \<le> h \<and> h \<le> 23 \<and> 0 \<le> mi \<and> mi \<le> 59 \<and> 0 \<le> s \<and> s \<le> 59
      then Inr \<lparr>year = y, month = mo, day = d, hour = h, min_ts = mi, sec = s\<rparr>
      else Inl ValueError)"

text \<open>
  \<open>is_valid_date\<close>; \<open>today_year\<close> stands for \<open>date.today().year\<close>. The \<open>except ValueError\<close>
  clause is the \<open>Inl\<close> branch.
\<close>

definition is_valid_date :: "int \<Rightarrow> FatXTimeStamp option \<Rightarrow> bool" where
  "is_valid_date today_year dt_opt =
     (case dt_opt of
        None \<Rightarrow> False
      | Some dt \<Rightarrow>
          (if \<not> (year dt \<le> today_year) then False
           else (case datetime (year dt) (month dt) (day dt) (hour dt) (min_ts dt) (sec dt) of
                   Inl ValueError \<Rightarrow> False
                 | Inr _ \<Rightarrow> True)))"

text \<open>
  \<open>FatXOrphan.is_valid\<close>; \<open>max_clusters\<close> is \<open>self.volume.max_clusters\<close>. The source
  defines the local function \<open>is_valid_attributes\<close> and never calls it, so neither does
  the model, and \<open>is_valid\<close> has no use for the attribute mask.
\<close>

definition is_valid :: "int \<Rightarrow> int \<Rightarrow> FatXOrphan \<Rightarrow> bool" where
  "is_valid max_clusters today_year d =
     (if first_cluster d > max_clusters then False
      else if \<not> list_all (\<lambda>c. c \<in> VALID_CHARS) (file_name_bytes d) then False
      else if \<not> is_valid_date today_year (creation_time d) \<or>
              \<not> is_valid_date today_year (last_write_time d) \<or>
              \<not> is_valid_date today_year (last_access_time d) then False
      else True)"

section \<open>Orphan recovery (fatx/analysis/orphan.py)\<close>

subsection \<open>The world: volume stream, output tree, log, and the calls that can fail\<close>

text \<open>
  Exceptions of the operating-system level calls, by the handlers of the source that
  tell them apart: \<open>OSError\<close> (\<open>IOError\<close> is its alias in Python 3), \<open>OverflowError\<close>,
  \<open>AttributeError\<close>, and \<open>OtherError\<close> for any other exception class (a \<open>ValueError\<close>
  for a path with a NUL character, a \<open>MemoryError\<close>).
\<close>

datatype exn = OSError | OverflowError | AttributeError | OtherError

text \<open>The records the source sends to its logger, by message.\<close>

datatype log_record =
    Recovering string
  | Failed_to_create_directory string
  | Failed_to_create_file string
  | Failed_to_set_timestamp

type_synonym timestamps = "FatXTimeStamp option \<times> FatXTimeStamp option \<times> FatXTimeStamp option"

text \<open>
  The state the two modules act on: the volume's byte stream \<open>infile\<close> with its one
  shared cursor, the output tree (directories, files with their contents, the timestamps
  applied to a path), the log, and the class attribute \<open>Unnamed_Counter\<close> of each
  signature class (by class identity; absent until first set).
\<close>

record world =
  infile_data :: "byte list"
  infile_pos :: nat
  fs_dirs :: "string set"
  fs_files :: "string \<rightharpoonup> byte list"
  fs_times :: "string \<rightharpoonup> timestamps"
  LOG :: "log_record list"
  Unnamed_Counter :: "nat \<rightharpoonup> int"

text \<open>
  What the code takes from its collaborators. The volume class is imported, not part of
  these sources: \<open>seek_to_cluster c\<close> positions the cursor at \<open>cluster_offset c\<close>, and
  \<open>seek_file_area o 0\<close> at \<open>file_area_offset o\<close>. Each call into the operating system
  may raise: \<open>makedirs_raises p\<close> is the exception \<open>os.makedirs(p)\<close> raises, if any;
  \<open>open_raises p\<close> that of \<open>open(p, 'wb')\<close>; \<open>read_raises n\<close> that of \<open>infile.read\<close> with
  the cursor at \<open>n\<close>; \<open>write_raises p n\<close> that of \<open>f.write\<close> on the file at \<open>p\<close> that
  holds \<open>n\<close> bytes; \<open>set_ts_raises p\<close> that of the base type's \<open>_set_ts(p)\<close>.
\<close>

record env =
  cluster_offset :: "int \<Rightarrow> nat"
  file_area_offset :: "int \<Rightarrow> nat"
  makedirs_raises :: "string \<Rightarrow> exn option"
  open_raises :: "string \<Rightarrow> exn option"
  read_raises :: "nat \<Rightarrow> exn option"
  write_raises :: "string \<Rightarrow> nat \<Rightarrow> exn option"
  set_ts_raises :: "string \<Rightarrow> exn option"

text \<open>
  A call returns with the new state, or raises with the state it leaves behind (a handler
  of the caller goes on from there). A loop that does not return is \<open>None\<close> of the
  enclosing \<open>option\<close>.
\<close>

datatype outcome = Returns world | Raises exn world

definition seek_to_cluster :: "env \<Rightarrow> int \<Rightarrow> world \<Rightarrow> world" where
  "seek_to_cluster E c s = s\<lparr>infile_pos := cluster_offset E c\<rparr>"

definition seek_file_area :: "env \<Rightarrow> int \<Rightarrow> world \<Rightarrow> world" where
  "seek_file_area E off s = s\<lparr>infile_pos := file_area_offset E off\<rparr>"

text \<open>
  \<open>infile.read(n)\<close> of a binary file: up to \<open>n\<close> bytes from the cursor, fewer at the
  end of the stream, all the rest when \<open>n\<close> is negative; the cursor moves past them.
\<close>

definition infile_read :: "env \<Rightarrow> int \<Rightarrow> world \<Rightarrow> (exn \<times> world) + (byte list \<times> world)" where
  "infile_read E n s =
     (case read_raises E (infile_pos s) of
        Some e \<Rightarrow> Inl (e, s)
      | None \<Rightarrow>
          (let avail = drop (infile_pos s) (infile_data s);
               buf = (if n < 0 then avail else take (nat n) avail)
           in Inr (buf, s\<lparr>infile_pos := infile_pos s + length buf\<rparr>)))"

definition path_exists :: "string \<Rightarrow> world \<Rightarrow> bool" where
  "path_exists p s = (p \<in> fs_dirs s \<or> p \<in> dom (fs_files s))"

text \<open>\<open>os.makedirs(p)\<close>; only the directory \<open>p\<close> itself is recorded, not its ancestors.\<close>

definition makedirs :: "env \<Rightarrow> string \<Rightarrow> world \<Rightarrow> outcome" where
  "makedirs E p s =
     (case makedirs_raises E p of
        Some e \<Rightarrow> Raises e s
      | None \<Rightarrow> Returns (s\<lparr>fs_dirs := insert p (fs_dirs s)\<rparr>))"

text \<open>\<open>open(p, 'wb')\<close> creates the file or truncates it.\<close>

definition open_wb :: "env \<Rightarrow> string \<Rightarrow> world \<Rightarrow> outcome" where
  "open_wb E p s =
     (case open_raises E p of
        Some e \<Rightarrow> Raises e s
      | None \<Rightarrow> Returns (s\<lparr>fs_files := (fs_files s)(p \<mapsto> [])\<rparr>))"

definition file_content :: "world \<Rightarrow> string \<Rightarrow> byte list" where
  "file_content s p = (case fs_files s p of None \<Rightarrow> [] | Some bs \<Rightarrow> bs)"

text \<open>\<open>f.write(buf)\<close> on the file opened at \<open>p\<close>: the bytes go after those written so far.\<close>

definition f_write :: "env \<Rightarrow> string \<Rightarrow> byte list \<Rightarrow> world \<Rightarrow> outcome" where
  "f_write E p buf s =
     (case write_raises E p (length (file_content s p)) of
        Some e \<Rightarrow> Raises e s
      | None \<Rightarrow> Returns (s\<lparr>fs_files := (fs_files s)(p \<mapsto> file_content s p @ buf)\<rparr>))"

text \<open>
  Modelled from the spec: \<open>_set_ts\<close> is a method of the directory-entry base type, which is
  not in these sources; the spec calls it a best-effort timestamp-application operation
  on a created filesystem path. It applies the entry's three timestamps to the path, or
  raises.
\<close>

definition set_ts :: "env \<Rightarrow> FatXOrphan \<Rightarrow> string \<Rightarrow> world \<Rightarrow> outcome" where
  "set_ts E d p s =
     (case set_ts_raises E p of
        Some e \<Rightarrow> Raises e s
      | None \<Rightarrow>
          Returns (s\<lparr>fs_times := (fs_times s)(p \<mapsto>
            (creation_time d, last_write_time d, last_access_time d))\<rparr>))"

definition log_record :: "log_record \<Rightarrow> world \<Rightarrow> world" where
  "log_record r s = s\<lparr>LOG := LOG s @ [r]\<rparr>"

subsection \<open>\<open>FatXOrphan.recover\<close>\<close>

text \<open>
  The \<open>while remains > 0\<close> loop of the file case. The chunk size \<open>bufsize\<close> is a local
  constant of the source (\<open>0x100000\<close>); it is a parameter of the loop here, so that the
  result can be compared across chunk sizes. With a chunk size that is not positive the
  loop never ends, hence \<open>option\<close>.
\<close>

partial_function (option) copy_loop :: "env \<Rightarrow> string \<Rightarrow> int \<Rightarrow> int \<Rightarrow> world \<Rightarrow> outcome option" where
  "copy_loop E whole_path bufsize remains s =
     (if remains > 0 then
        (let read = min remains bufsize;
             remains' = remains - read
         in case infile_read E read s of
              Inl (e, s1) \<Rightarrow> Some (Raises e s1)
            | Inr (buf, s1) \<Rightarrow>
                (case f_write E whole_path buf s1 of
                   Raises e s2 \<Rightarrow> Some (Raises e s2)
                 | Returns s2 \<Rightarrow> copy_loop E whole_path bufsize remains' s2))
      else Some (Returns s))"

definition bufsize :: int where
  "bufsize = 0x100000"

text \<open>
  The \<open>try\<close> block of the file case with its handler
  \<open>except (OSError, IOError, OverflowError)\<close>: a handled exception is logged and the
  function goes on; any other exception leaves \<open>recover\<close>.
\<close>

definition file_handler :: "string \<Rightarrow> exn \<Rightarrow> world \<Rightarrow> outcome" where
  "file_handler whole_path e s =
     (if e = OSError \<or> e = OverflowError
      then Returns (log_record (Failed_to_create_file whole_path) s)
      else Raises e s)"

definition recover_file :: "env \<Rightarrow> string \<Rightarrow> FatXOrphan \<Rightarrow> world \<Rightarrow> outcome option" where
  "recover_file E whole_path d s =
     (let remains = file_size d in
      case open_wb E whole_path s of
        Raises e s1 \<Rightarrow> Some (file_handler whole_path e s1)
      | Returns s1 \<Rightarrow>
          (case copy_loop E whole_path bufsize remains s1 of
             None \<Rightarrow> None
           | Some (Raises e s2) \<Rightarrow> Some (file_handler whole_path e s2)
           | Some (Returns s2) \<Rightarrow> Some (Returns s2)))"

text \<open>
  The last \<open>try\<close> block: \<open>_set_ts\<close> under a bare \<open>except\<close>, which catches every exception
  and logs it.
\<close>

definition try_set_ts :: "env \<Rightarrow> FatXOrphan \<Rightarrow> string \<Rightarrow> world \<Rightarrow> world" where
  "try_set_ts E d whole_path s =
     (case set_ts E d whole_path s of
        Raises e s1 \<Rightarrow> log_record Failed_to_set_timestamp s1
      | Returns s1 \<Rightarrow> s1)"

text \<open>
  \<open>recover\<close>, and the \<open>for dirent in self.children\<close> loop as \<open>recover_children\<close>. The
  handler of \<open>os.makedirs\<close> is \<open>except (OSError, IOError)\<close>: it logs and returns.
\<close>

fun recover :: "env \<Rightarrow> string \<Rightarrow> FatXOrphan \<Rightarrow> world \<Rightarrow> outcome option"
  and recover_children :: "env \<Rightarrow> string \<Rightarrow> FatXOrphan list \<Rightarrow> world \<Rightarrow> outcome option"
where
  "recover E path (FatXOrphan fnb fname fc fsize attr ct wt at isdir chs) s =
     (let self = FatXOrphan fnb fname fc fsize attr ct wt at isdir chs;
          whole_path = path @ ''/'' @ fname;
          s1 = seek_to_cluster E fc s;
          s2 = log_record (Recovering whole_path) s1
      in if isdir then
           (if \<not> path_exists whole_path s2 then
              (case makedirs E whole_path s2 of
                 Raises e s3 \<Rightarrow>
                   (if e = OSError
                    then Some (Returns (log_record (Failed_to_create_directory whole_path) s3))
                    else Some (Raises e s3))
               | Returns s3 \<Rightarrow>
                   (case recover_children E whole_path chs s3 of
                      None \<Rightarrow> None
                    | Some (Raises e s4) \<Rightarrow> Some (Raises e s4)
                    | Some (Returns s4) \<Rightarrow> Some (Returns (try_set_ts E self whole_path s4))))
            else
              (case recover_children E whole_path chs s2 of
                 None \<Rightarrow> None
               | Some (Raises e s4) \<Rightarrow> Some (Raises e s4)
               | Some (Returns s4) \<Rightarrow> Some (Returns (try_set_ts E self whole_path s4))))
         else
           (case recover_file E whole_path self s2 of
              None \<Rightarrow> None
            | Some (Raises e s3) \<Rightarrow> Some (Raises e s3)
            | Some (Returns s3) \<Rightarrow> Some (Returns (try_set_ts E self whole_path s3))))"
| "recover_children E whole_path [] s = Some (Returns s)"
| "recover_children E whole_path (dirent # rest) s =
     (case recover E whole_path dirent s of
        None \<Rightarrow> None
      | Some (Raises e s1) \<Rightarrow> Some (Raises e s1)
      | Some (Returns s1) \<Rightarrow> recover_children E whole_path rest s1)"

section \<open>File carving signatures (fatx/analysis/signature.py)\<close>

subsection \<open>Classes and instances\<close>

text \<open>
  A signature class: its identity, its \<open>__name__\<close>, and the identities of the other classes
  of its method resolution order, nearest first. An attribute looked up on a class is
  found on the class itself or, failing that, on the first class of that order that has
  it.
\<close>

record py_class =
  cls_id :: nat
  cls_name :: string
  cls_bases :: "nat list"

text \<open>
  An instance: \<open>self.__class__\<close>, \<open>self.length\<close> (named \<open>length_sig\<close>: \<open>length\<close> is the
  length of a list in HOL), \<open>self.name\<close> and \<open>self._offset\<close>.
\<close>

record FatXSignature =
  cls :: py_class
  length_sig :: int
  name :: "string option"
  offset :: int

subsection \<open>\<open>str\<close> and \<open>lower\<close>\<close>

definition digit_char :: "nat \<Rightarrow> char" where
  "digit_char n = char_of (48 + n)"

fun str_nat :: "nat \<Rightarrow> string" where
  "str_nat n = (if n < 10 then [digit_char n] else str_nat (n div 10) @ [digit_char (n mod 10)])"

text \<open>\<open>str(i)\<close> of an integer: its decimal digits, after a minus sign when negative.\<close>

definition str :: "int \<Rightarrow> string" where
  "str i = (if i < 0 then CHR ''-'' # str_nat (nat (- i)) else str_nat (nat i))"

text \<open>\<open>lower()\<close>, on the ASCII letters (the characters of HOL are bytes).\<close>

definition lower_char :: "char \<Rightarrow> char" where
  "lower_char c =
     (let n = (of_char c :: nat) in if 65 \<le> n \<and> n \<le> 90 then char_of (n + 32) else c)"

definition lower :: "string \<Rightarrow> string" where
  "lower s = map lower_char s"

subsection \<open>\<open>get_file_name\<close>\<close>

text \<open>
  \<open>getattr(c, 'Unnamed_Counter')\<close> on a class: the attribute of the first class of the
  method resolution order that has one; \<open>hasattr\<close> tells whether there is any.
\<close>

definition getattr_Unnamed_Counter :: "py_class \<Rightarrow> (nat \<rightharpoonup> int) \<Rightarrow> int option" where
  "getattr_Unnamed_Counter c cs =
     (case List.map_filter cs (cls_id c # cls_bases c) of [] \<Rightarrow> None | v # _ \<Rightarrow> Some v)"

definition hasattr_Unnamed_Counter :: "py_class \<Rightarrow> (nat \<rightharpoonup> int) \<Rightarrow> bool" where
  "hasattr_Unnamed_Counter c cs = (getattr_Unnamed_Counter c cs \<noteq> None)"

text \<open>
  \<open>get_file_name\<close> returns the name and leaves the counter of the class advanced. Reading
  an attribute that is not there raises \<open>AttributeError\<close>.
\<close>

definition get_file_name :: "FatXSignature \<Rightarrow> world \<Rightarrow> (exn \<times> world) + (string \<times> world)" where
  "get_file_name self s =
     (case name self of
        Some fname \<Rightarrow> Inr (fname, s)
      | None \<Rightarrow>
          (let c = cls self;
               s1 = (if \<not> hasattr_Unnamed_Counter c (Unnamed_Counter s)
                     then s\<lparr>Unnamed_Counter := (Unnamed_Counter s)(cls_id c \<mapsto> 1)\<rparr>
                     else s)
           in case getattr_Unnamed_Counter c (Unnamed_Counter s1) of
                None \<Rightarrow> Inl (AttributeError, s1)
              | Some n \<Rightarrow>
                  Inr (lower (cls_name c) @ str n,
                       s1\<lparr>Unnamed_Counter := (Unnamed_Counter s1)(cls_id c \<mapsto> n + 1)\<rparr>)))"

text \<open>\<open>get_file_name\<close> called on each instance of a list in turn; the names in order.\<close>

fun get_file_names :: "FatXSignature list \<Rightarrow> world \<Rightarrow> (exn \<times> world) + (string list \<times> world)" where
  "get_file_names [] s = Inr ([], s)"
| "get_file_names (self # rest) s =
     (case get_file_name self s of
        Inl (e, s1) \<Rightarrow> Inl (e, s1)
      | Inr (fname, s1) \<Rightarrow>
          (case get_file_names rest s1 of
             Inl (e, s2) \<Rightarrow> Inl (e, s2)
           | Inr (fnames, s2) \<Rightarrow> Inr (fname # fnames, s2)))"

subsection \<open>The default \<open>recover\<close> of a signature\<close>

text \<open>\<open>seek(offset, whence=0)\<close> and \<open>read(size)\<close> of the signature.\<close>

definition seek :: "env \<Rightarrow> FatXSignature \<Rightarrow> int \<Rightarrow> world \<Rightarrow> world" where
  "seek E self off s = seek_file_area E (off + offset self) s"

definition signature_read :: "env \<Rightarrow> int \<Rightarrow> world \<Rightarrow> (exn \<times> world) + (byte list \<times> world)" where
  "signature_read E n s = infile_read E n s"

text \<open>
  \<open>FatXSignature.recover\<close> (named \<open>signature_recover\<close>; \<open>recover\<close> is the orphan's). It has
  no handler: an exception of a call leaves it.
\<close>

definition signature_recover :: "env \<Rightarrow> string \<Rightarrow> FatXSignature \<Rightarrow> world \<Rightarrow> outcome" where
  "signature_recover E path self s =
     (case get_file_name self s of
        Inl (e, s1) \<Rightarrow> Raises e s1
      | Inr (fname, s1) \<Rightarrow>
          (let whole_path = path @ ''/'' @ fname in
           case open_wb E whole_path s1 of
             Raises e s2 \<Rightarrow> Raises e s2
           | Returns s2 \<Rightarrow>
               (if length_sig self \<noteq> 0 \<and> length_sig self < 0xffffffff then
                  (let s3 = seek E self 0 s2 in
                   case signature_read E (length_sig self) s3 of
                     Inl (e, s4) \<Rightarrow> Raises e s4
                   | Inr (data, s4) \<Rightarrow> f_write E whole_path data s4)
                else Returns s2)))"

section \<open>Definitions for stating the properties\<close>

text \<open>The fields of a timestamp construct a \<open>datetime\<close>: the constructor does not raise.\<close>

definition constructible :: "FatXTimeStamp \<Rightarrow> bool" where
  "constructible dt =
     (\<not> isl (datetime (year dt) (month dt) (day dt) (hour dt) (min_ts dt) (sec dt)))"

text \<open>
  The state a call leaves behind, and the exception it raised, if any.
\<close>

fun outcome_state :: "outcome \<Rightarrow> world" where
  "outcome_state (Returns s) = s"
| "outcome_state (Raises e s) = s"

definition raised :: "outcome \<Rightarrow> exn option" where
  "raised r = (case r of Returns s \<Rightarrow> None | Raises e s \<Rightarrow> Some e)"

text \<open>
  The failures of the operating-system level: every exception a call raises is of a class
  that the handler around the call in \<open>recover\<close> catches (\<open>OSError\<close> for \<open>os.makedirs\<close>;
  \<open>OSError\<close> or \<open>OverflowError\<close> for \<open>open\<close>, \<open>read\<close> and \<open>write\<close>). \<open>_set_ts\<close> may raise
  anything.
\<close>

definition caught_errors_only :: "env \<Rightarrow> bool" where
  "caught_errors_only E =
     ((\<forall>p e. makedirs_raises E p = Some e \<longrightarrow> e = OSError) \<and>
      (\<forall>p e. open_raises E p = Some e \<longrightarrow> e = OSError \<or> e = OverflowError) \<and>
      (\<forall>n e. read_raises E n = Some e \<longrightarrow> e = OSError \<or> e = OverflowError) \<and>
      (\<forall>p n e. write_raises E p n = Some e \<longrightarrow> e = OSError \<or> e = OverflowError))"

text \<open>
  The local variable \<open>whole_path\<close> of \<open>recover\<close>, and the state after its first three
  statements: the cursor at the entry's first cluster, and \<open>Recovering\<close> logged.
\<close>

definition whole_path :: "string \<Rightarrow> FatXOrphan \<Rightarrow> string" where
  "whole_path path d = path @ ''/'' @ file_name d"

definition entered :: "env \<Rightarrow> string \<Rightarrow> FatXOrphan \<Rightarrow> world \<Rightarrow> world" where
  "entered E path d s =
     log_record (Recovering (whole_path path d)) (seek_to_cluster E (first_cluster d) s)"

text \<open>
  What follows the directory case and the file case alike: an exception that left the case
  leaves \<open>recover\<close>; otherwise the last \<open>try\<close> block runs.
\<close>

definition after_case :: "env \<Rightarrow> FatXOrphan \<Rightarrow> string \<Rightarrow> outcome option \<Rightarrow> outcome option" where
  "after_case E d wp r =
     (case r of
        None \<Rightarrow> None
      | Some (Raises e s) \<Rightarrow> Some (Raises e s)
      | Some (Returns s) \<Rightarrow> Some (Returns (try_set_ts E d wp s)))"

text \<open>
  The state in which the children of a directory entry are recovered when its creation did
  not fail: the state entered, with the directory added unless the path existed.
\<close>

definition dir_ready :: "env \<Rightarrow> string \<Rightarrow> FatXOrphan \<Rightarrow> world \<Rightarrow> world" where
  "dir_ready E path d s =
     (if path_exists (whole_path path d) s then entered E path d s
      else (entered E path d s)\<lparr>fs_dirs := insert (whole_path path d) (fs_dirs s)\<rparr>)"

text \<open>
  The instances that \<open>get_file_name\<close> numbers for a class: those of the class with no name
  of their own. \<open>names_given c calls fnames\<close> picks, from the names returned for a sequence
  of calls, those given to such instances; \<open>auto_name\<close> is the generated name, and
  \<open>next_number\<close> the number the class itself holds for its next unnamed instance (1 before
  the first).
\<close>

definition unnamed_of :: "py_class \<Rightarrow> FatXSignature \<Rightarrow> bool" where
  "unnamed_of c self = (cls self = c \<and> name self = None)"

definition names_given :: "py_class \<Rightarrow> FatXSignature list \<Rightarrow> string list \<Rightarrow> string list" where
  "names_given c calls fnames = map snd (filter (\<lambda>p. unnamed_of c (fst p)) (zip calls fnames))"

definition auto_name :: "py_class \<Rightarrow> int \<Rightarrow> string" where
  "auto_name c n = lower (cls_name c) @ str n"

definition next_number :: "py_class \<Rightarrow> world \<Rightarrow> int" where
  "next_number c s = (case Unnamed_Counter s (cls_id c) of None \<Rightarrow> 1 | Some m \<Rightarrow> m)"

section \<open>Example inputs\<close>

text \<open>
  The example of the spec: the entry \<open>HELLO.TXT\<close> at cluster 10 with no attribute set and
  its three timestamps at 2020-01-01 00:00:00. \<open>example_entry\<close> varies the name bytes,
  the first cluster, the size, the attributes and the timestamps.
\<close>

definition ts_of :: "int \<Rightarrow> int \<Rightarrow> int \<Rightarrow> int \<Rightarrow> int \<Rightarrow> int \<Rightarrow> FatXTimeStamp" where
  "ts_of y mo d h mi s = \<lparr>year = y, month = mo, day = d, hour = h, min_ts = mi, sec = s\<rparr>"

definition ts_2020 :: FatXTimeStamp where
  "ts_2020 = ts_of 2020 1 1 0 0 0"

definition example_entry ::
  "byte list \<Rightarrow> int \<Rightarrow> int \<Rightarrow> int \<Rightarrow> FatXTimeStamp option \<Rightarrow> FatXOrphan" where
  "example_entry bs c n a t = FatXOrphan bs ''HELLO.TXT'' c n a t t t False []"

definition hello_txt :: FatXOrphan where
  "hello_txt = example_entry (encode_ascii ''HELLO.TXT'') 10 4096 0 (Some ts_2020)"

text \<open>
  An environment in which no call raises (clusters of 16 bytes, the first one at offset
  0), one in which every \<open>os.makedirs\<close> raises \<open>OSError\<close>, and a world with the volume bytes
  \<open>bs\<close> and an empty output directory \<open>/out\<close>.
\<close>

definition quiet_env :: env where
  "quiet_env =
     \<lparr>cluster_offset = (\<lambda>c. nat (c - 1) * 16), file_area_offset = (\<lambda>off. nat off),
      makedirs_raises = (\<lambda>p. None), open_raises = (\<lambda>p. None), read_raises = (\<lambda>n. None),
      write_raises = (\<lambda>p n. None), set_ts_raises = (\<lambda>p. None)\<rparr>"

definition mkdir_fails_env :: env where
  "mkdir_fails_env = quiet_env\<lparr>makedirs_raises := (\<lambda>p. Some OSError)\<rparr>"

definition fresh_world :: "byte list \<Rightarrow> world" where
  "fresh_world bs =
     \<lparr>infile_data = bs, infile_pos = 0, fs_dirs = {''/out''}, fs_files = Map.empty,
      fs_times = Map.empty, LOG = [], Unnamed_Counter = Map.empty\<rparr>"

text \<open>
  A plausible file entry of 5 bytes at cluster 1, and a directory entry with one child.
\<close>

definition short_file :: FatXOrphan where
  "short_file = example_entry (encode_ascii ''HELLO.TXT'') 1 5 0 (Some ts_2020)"

definition example_dir :: FatXOrphan where
  "example_dir = FatXOrphan (encode_ascii ''DIR'') ''DIR'' 10 0 0x10
     (Some ts_2020) (Some ts_2020) (Some ts_2020) True [hello_txt]"

text \<open>
  Two signature classes that inherit from the base class (identity 0) directly, instances
  of them at offset \<open>0x1000\<close> and 0 of the file area, and a volume with 16 bytes of a file
  at offset \<open>0x1000\<close>.
\<close>

definition FooSignature :: py_class where
  "FooSignature = \<lparr>cls_id = 1, cls_name = ''FooSignature'', cls_bases = [0]\<rparr>"

definition BarSignature :: py_class where
  "BarSignature = \<lparr>cls_id = 2, cls_name = ''BarSignature'', cls_bases = [0]\<rparr>"

definition foo_sig :: "int \<Rightarrow> string option \<Rightarrow> FatXSignature" where
  "foo_sig n nm = \<lparr>cls = FooSignature, length_sig = n, name = nm, offset = 0x1000\<rparr>"

definition bar_sig :: FatXSignature where
  "bar_sig = \<lparr>cls = BarSignature, length_sig = 0, name = None, offset = 0\<rparr>"

text \<open>
  The base class itself, a signature class that inherits from \<open>FooSignature\<close>, and an
  unnamed instance of each.
\<close>

definition FatXSignature_class :: py_class where
  "FatXSignature_class = \<lparr>cls_id = 0, cls_name = ''FatXSignature'', cls_bases = []\<rparr>"

definition ChildSignature :: py_class where
  "ChildSignature = \<lparr>cls_id = 3, cls_name = ''ChildSignature'', cls_bases = [1, 0]\<rparr>"

definition base_sig :: FatXSignature where
  "base_sig = \<lparr>cls = FatXSignature_class, length_sig = 0, name = None, offset = 0\<rparr>"

definition child_sig :: FatXSignature where
  "child_sig = \<lparr>cls = ChildSignature, length_sig = 0, name = None, offset = 0\<rparr>"

definition carved_volume :: "byte list" where
  "carved_volume = replicate 0x1000 0 @
     [0x58, 0x42, 0x45, 0x48, 1, 2, 3, 4, 5, 6, 7, 8, 9, 10, 11, 12] @ [0xFF, 0xFF]"

section \<open>The validator's properties\<close>

lemma is_valid_iff:
  "is_valid mc ty d \<longleftrightarrow>
     first_cluster d \<le> mc \<and> list_all (\<lambda>c. c \<in> VALID_CHARS) (file_name_bytes d) \<and>
     is_valid_date ty (creation_time d) \<and> is_valid_date ty (last_write_time d) \<and>
     is_valid_date ty (last_access_time d)"
  by (auto simp: is_valid_def)

lemmas validator_defs = is_valid_date_def datetime_def days_in_month_def is_leap_def
  VALID_CHARS_def VALID_CHARS_list_def encode_ascii_def ascii_uppercase_def ascii_lowercase_def
  digits_def punctuation_bytes_def

lemma is_valid_date_Some:
  "is_valid_date ty (Some dt) \<longleftrightarrow> year dt \<le> ty \<and> constructible dt"
  by (auto simp: is_valid_date_def constructible_def split: sum.splits py_error.splits)

lemma is_valid_date_None: "\<not> is_valid_date ty None"
  by (simp add: is_valid_date_def)

lemma not_constructible:
  "year dt < 1 \<or> 9999 < year dt \<or> month dt < 1 \<or> 12 < month dt \<or> day dt < 1 \<or> days_in_month (year dt) (month dt) < day dt \<or>
   hour dt < 0 \<or> 23 < hour dt \<or> min_ts dt < 0 \<or> 59 < min_ts dt \<or> sec dt < 0 \<or> 59 < sec dt
   \<Longrightarrow> \<not> constructible dt"
  by (auto simp: constructible_def datetime_def)

lemma hello_bytes_valid: "list_all (\<lambda>c. c \<in> VALID_CHARS) (encode_ascii ''HELLO.TXT'')"
  by (simp add: VALID_CHARS_def VALID_CHARS_list_def encode_ascii_def ascii_uppercase_def digits_def)

lemma ts_2020_valid: "is_valid_date 2026 (Some ts_2020)"
  by (simp add: is_valid_date_def ts_2020_def ts_of_def datetime_def days_in_month_def)

lemma is_valid_example_entry:
  "is_valid mc ty (example_entry bs c n a t) \<longleftrightarrow>
     c \<le> mc \<and> list_all (\<lambda>c. c \<in> VALID_CHARS) bs \<and> is_valid_date ty t"
  by (auto simp: is_valid_iff example_entry_def)

lemma is_valid_hello_txt: "is_valid 1000 2026 hello_txt"
  by (simp add: hello_txt_def is_valid_example_entry hello_bytes_valid ts_2020_valid)

text \<open>The attributes of an entry have no part in the verdict of \<open>is_valid\<close>.\<close>

lemma is_valid_attributes_irrelevant:
  "is_valid mc ty (FatXOrphan bs fn c n a ct wt lt isd chs) =
   is_valid mc ty (FatXOrphan bs fn c n a' ct wt lt isd chs)"
  by (simp add: is_valid_def)

text \<open>
  C1 (the code departs from the claim). The claim: an entry whose attributes have a bit
  outside the valid mask is rejected by \<open>is_valid\<close>. The code: with the mask \<open>0x37\<close>
  (read-only, hidden, system, directory, archive), the attributes \<open>0x40\<close> are not valid
  attributes, yet \<open>is_valid\<close> accepts the entry \<open>HELLO.TXT\<close> that carries them, since it
  never calls its local function \<open>is_valid_attributes\<close>.
\<close>

theorem is_valid_ignores_attributes:
  "\<not> is_valid_attributes 0x37 0x40 \<and>
   is_valid 1000 2026 (example_entry (encode_ascii ''HELLO.TXT'') 10 4096 0x40 (Some ts_2020)) = True"
  by (simp add: is_valid_attributes_def is_valid_example_entry hello_bytes_valid ts_2020_valid)

theorem is_valid_ignores_attributes_witness:
  "is_valid 1000 2026 (example_entry (encode_ascii ''HELLO.TXT'') 10 4096 0x40 (Some ts_2020)) =
   is_valid 1000 2026 hello_txt"
  using is_valid_ignores_attributes is_valid_hello_txt by simp

text \<open>
  C8. An entry whose first cluster exceeds the volume's maximum cluster count is rejected
  by \<open>is_valid\<close>, whatever its other fields are.
\<close>

theorem is_valid_rejects_cluster_out_of_range:
  "first_cluster d > max_clusters \<Longrightarrow> is_valid max_clusters today_year d = False"
  by (simp add: is_valid_def)

theorem is_valid_rejects_cluster_out_of_range_witness:
  "first_cluster (example_entry (encode_ascii ''HELLO.TXT'') 10000 4096 0 (Some ts_2020)) > 1000 \<and>
   is_valid 1000 2026 hello_txt = True \<and>
   is_valid 1000 2026 (example_entry (encode_ascii ''HELLO.TXT'') 10000 4096 0 (Some ts_2020)) = False"
proof -
  have big: "first_cluster (example_entry (encode_ascii ''HELLO.TXT'') 10000 4096 0 (Some ts_2020)) > 1000"
    by (simp add: example_entry_def)
  from big is_valid_hello_txt is_valid_rejects_cluster_out_of_range [OF big, of 2026]
  show ?thesis by simp
qed

text \<open>
  C6. An entry with a name byte outside \<open>VALID_CHARS\<close> is rejected by \<open>is_valid\<close>.
  Conversely an entry is accepted when all its name bytes are in \<open>VALID_CHARS\<close>, its first
  cluster is at most the maximum cluster count, its attributes are within the valid mask
  \<open>V\<close>, and its three timestamps are present, of a year that is at most the current year,
  and construct a \<open>datetime\<close>.
\<close>

theorem is_valid_file_name_bytes:
  "((\<exists>c \<in> set (file_name_bytes d). c \<notin> VALID_CHARS) \<longrightarrow> is_valid mc ty d = False) \<and>
   (list_all (\<lambda>c. c \<in> VALID_CHARS) (file_name_bytes d) \<and> first_cluster d \<le> mc \<and>
    is_valid_attributes V (attributes d) \<and>
    creation_time d = Some ct \<and> year ct \<le> ty \<and> constructible ct \<and>
    last_write_time d = Some wt \<and> year wt \<le> ty \<and> constructible wt \<and>
    last_access_time d = Some lt \<and> year lt \<le> ty \<and> constructible lt
    \<longrightarrow> is_valid mc ty d = True)"
  by (auto simp: is_valid_iff is_valid_date_Some list_all_iff)

theorem is_valid_file_name_bytes_witness:
  "is_valid 1000 2026 (example_entry [0x41, 0x2F, 0x42] 10 4096 0 (Some ts_2020)) = False \<and>
   is_valid 1000 2026 hello_txt = True"
proof -
  have bad: "\<exists>c \<in> set (file_name_bytes (example_entry [0x41, 0x2F, 0x42] 10 4096 0 (Some ts_2020))).
      c \<notin> VALID_CHARS"
    by (simp add: example_entry_def validator_defs)
  have ts: "year ts_2020 \<le> 2026" "constructible ts_2020"
    by (simp_all add: ts_2020_def ts_of_def constructible_def datetime_def days_in_month_def)
  have good: "list_all (\<lambda>c. c \<in> VALID_CHARS) (file_name_bytes hello_txt)"
    "first_cluster hello_txt \<le> 1000" "is_valid_attributes 0x37 (attributes hello_txt)"
    "creation_time hello_txt = Some ts_2020" "last_write_time hello_txt = Some ts_2020"
    "last_access_time hello_txt = Some ts_2020"
    by (simp_all add: hello_txt_def example_entry_def hello_bytes_valid is_valid_attributes_def)
  from bad
    is_valid_file_name_bytes [where d = "example_entry [0x41, 0x2F, 0x42] 10 4096 0 (Some ts_2020)"
      and mc = 1000 and ty = 2026]
  have 1: "is_valid 1000 2026 (example_entry [0x41, 0x2F, 0x42] 10 4096 0 (Some ts_2020)) = False"
    by blast
  from good ts is_valid_file_name_bytes [where d = hello_txt and mc = 1000 and ty = 2026
      and V = "0x37" and ct = ts_2020 and wt = ts_2020 and lt = ts_2020]
  have 2: "is_valid 1000 2026 hello_txt = True" by blast
  from 1 2 show ?thesis by simp
qed

text \<open>
  C7. \<open>is_valid\<close> rejects an entry when one of its three timestamps is absent, when the
  year of one of them exceeds the current year, and when one of them does not construct a
  \<open>datetime\<close>, as is the case when its year, month, day, hour, minute or second is out of
  range. A timestamp of a
  year that is at most the current year and that constructs passes \<open>is_valid_date\<close>; only
  the year is compared with today, so every date of the current year passes, the last
  second of the year included.
\<close>

theorem is_valid_timestamps:
  "(creation_time d = None \<or> last_write_time d = None \<or> last_access_time d = None
      \<longrightarrow> is_valid mc ty d = False) \<and>
   ((creation_time d = Some dt \<or> last_write_time d = Some dt \<or> last_access_time d = Some dt) \<and>
    ty < year dt \<longrightarrow> is_valid mc ty d = False) \<and>
   ((creation_time d = Some dt \<or> last_write_time d = Some dt \<or> last_access_time d = Some dt) \<and>
    \<not> constructible dt \<longrightarrow> is_valid mc ty d = False) \<and>
   (year dt < 1 \<or> 9999 < year dt \<or> month dt < 1 \<or> 12 < month dt \<or> day dt < 1 \<or>
    days_in_month (year dt) (month dt) < day dt \<or> hour dt < 0 \<or> 23 < hour dt \<or>
    min_ts dt < 0 \<or> 59 < min_ts dt \<or> sec dt < 0 \<or> 59 < sec dt \<longrightarrow> \<not> constructible dt) \<and>
   (year dt' \<le> ty \<and> constructible dt' \<longrightarrow> is_valid_date ty (Some dt') = True) \<and>
   (1 \<le> ty \<and> ty \<le> 9999 \<and> 1 \<le> mo \<and> mo \<le> 12 \<and> 1 \<le> dy \<and> dy \<le> days_in_month ty mo
      \<longrightarrow> is_valid_date ty (Some (ts_of ty mo dy 23 59 59)) = True)"
proof (intro conjI impI)
  assume "creation_time d = None \<or> last_write_time d = None \<or> last_access_time d = None"
  then show "is_valid mc ty d = False"
    by (auto simp: is_valid_iff is_valid_date_None)
next
  assume "(creation_time d = Some dt \<or> last_write_time d = Some dt \<or> last_access_time d = Some dt) \<and>
    ty < year dt"
  then show "is_valid mc ty d = False"
    by (auto simp: is_valid_iff is_valid_date_Some)
next
  assume "(creation_time d = Some dt \<or> last_write_time d = Some dt \<or> last_access_time d = Some dt) \<and>
    \<not> constructible dt"
  then show "is_valid mc ty d = False"
    by (auto simp: is_valid_iff is_valid_date_Some)
next
  assume "year dt < 1 \<or> 9999 < year dt \<or> month dt < 1 \<or> 12 < month dt \<or> day dt < 1 \<or>
    days_in_month (year dt) (month dt) < day dt \<or> hour dt < 0 \<or> 23 < hour dt \<or>
    min_ts dt < 0 \<or> 59 < min_ts dt \<or> sec dt < 0 \<or> 59 < sec dt"
  then show "\<not> constructible dt" by (rule not_constructible)
next
  assume "year dt' \<le> ty \<and> constructible dt'"
  then show "is_valid_date ty (Some dt') = True"
    by (simp add: is_valid_date_Some)
next
  assume "1 \<le> ty \<and> ty \<le> 9999 \<and> 1 \<le> mo \<and> mo \<le> 12 \<and> 1 \<le> dy \<and> dy \<le> days_in_month ty mo"
  then show "is_valid_date ty (Some (ts_of ty mo dy 23 59 59)) = True"
    by (simp add: is_valid_date_Some constructible_def datetime_def ts_of_def)
qed

theorem is_valid_timestamps_witness:
  "is_valid 1000 2026 (example_entry (encode_ascii ''HELLO.TXT'') 10 4096 0 None) = False \<and>
   is_valid 1000 2026
     (example_entry (encode_ascii ''HELLO.TXT'') 10 4096 0 (Some (ts_of 2027 1 1 0 0 0))) = False \<and>
   is_valid 1000 2026
     (example_entry (encode_ascii ''HELLO.TXT'') 10 4096 0 (Some (ts_of 2020 13 32 0 61 0))) = False \<and>
   is_valid 1000 2026
     (example_entry (encode_ascii ''HELLO.TXT'') 10 4096 0 (Some (ts_of 2019 2 29 0 0 0))) = False \<and>
   is_valid_date 2026 (Some ts_2020) = True \<and>
   is_valid_date 2026 (Some (ts_of 2026 12 31 23 59 59)) = True"
proof -
  let ?e = "\<lambda>t. example_entry (encode_ascii ''HELLO.TXT'') 10 4096 0 t"
  have 1: "is_valid 1000 2026 (?e None) = False"
    using is_valid_timestamps [where d = "?e None" and mc = 1000 and ty = 2026]
    by (simp add: example_entry_def)
  have 2: "is_valid 1000 2026 (?e (Some (ts_of 2027 1 1 0 0 0))) = False"
    using is_valid_timestamps [where d = "?e (Some (ts_of 2027 1 1 0 0 0))" and mc = 1000
        and ty = 2026 and dt = "ts_of 2027 1 1 0 0 0"]
    by (simp add: example_entry_def ts_of_def)
  have 3: "is_valid 1000 2026 (?e (Some (ts_of 2020 13 32 0 61 0))) = False"
    using is_valid_timestamps [where d = "?e (Some (ts_of 2020 13 32 0 61 0))" and mc = 1000
        and ty = 2026 and dt = "ts_of 2020 13 32 0 61 0"]
    by (simp add: example_entry_def ts_of_def)
  have 4: "is_valid 1000 2026 (?e (Some (ts_of 2019 2 29 0 0 0))) = False"
    using is_valid_timestamps [where d = "?e (Some (ts_of 2019 2 29 0 0 0))" and mc = 1000
        and ty = 2026 and dt = "ts_of 2019 2 29 0 0 0"]
    by (simp add: example_entry_def ts_of_def days_in_month_def is_leap_def)
  have 5: "is_valid_date 2026 (Some ts_2020) = True"
    using is_valid_timestamps [where ty = 2026 and dt' = ts_2020]
    by (simp add: ts_2020_def ts_of_def constructible_def datetime_def days_in_month_def)
  have 6: "is_valid_date 2026 (Some (ts_of 2026 12 31 23 59 59)) = True"
    using is_valid_timestamps [where ty = 2026 and mo = 12 and dy = 31]
    by (simp add: days_in_month_def)
  from 1 2 3 4 5 6 show ?thesis by simp
qed

section \<open>The copy loop\<close>

lemma take_append_take_drop:
  "take n xs @ take m (drop (length (take n xs)) xs) = take (n + m) xs"
proof (cases "n \<le> length xs")
  case True
  then show ?thesis by (simp add: take_add min_def)
next
  case False
  then show ?thesis by simp
qed

lemma bufsize_pos: "0 < bufsize"
  by (simp add: bufsize_def)

lemma copy_loop_no_failure:
  assumes buf: "0 < bsz"
    and rd: "\<And>n. read_raises E n = None"
    and wr: "\<And>n. write_raises E wp n = None"
    and opened: "fs_files s wp = Some c"
  shows "copy_loop E wp bsz remains s =
    Some (Returns (s\<lparr>infile_pos := infile_pos s +
                       length (take (nat remains) (drop (infile_pos s) (infile_data s))),
                    fs_files := (fs_files s)(wp \<mapsto>
                       c @ take (nat remains) (drop (infile_pos s) (infile_data s)))\<rparr>))"
  using opened
proof (induction "nat remains" arbitrary: remains s c rule: less_induct)
  case less
  show ?case
  proof (cases "0 < remains")
    case False
    then have "nat remains = 0" by simp
    moreover have "(fs_files s)(wp \<mapsto> c) = fs_files s"
      using less.prems by (simp add: map_upd_triv)
    ultimately show ?thesis using False
      by (subst copy_loop.simps) simp
  next
    case True
    define rd_n where "rd_n = min remains bsz"
    define buf where "buf = take (nat rd_n) (drop (infile_pos s) (infile_data s))"
    define s1 where "s1 = s\<lparr>infile_pos := infile_pos s + length buf\<rparr>"
    define s2 where "s2 = s1\<lparr>fs_files := (fs_files s1)(wp \<mapsto> c @ buf)\<rparr>"
    have pos: "0 < rd_n" using True buf by (simp add: rd_n_def)
    have r: "infile_read E rd_n s = Inr (buf, s1)"
      using pos by (simp add: infile_read_def rd buf_def s1_def Let_def)
    have w: "f_write E wp buf s1 = Returns s2"
      using less.prems by (simp add: f_write_def wr file_content_def s1_def s2_def)
    have smaller: "nat (remains - rd_n) < nat remains" using pos True by simp
    have o2: "fs_files s2 wp = Some (c @ buf)" by (simp add: s2_def)
    have step: "copy_loop E wp bsz remains s = copy_loop E wp bsz (remains - rd_n) s2"
      using True r w by (subst copy_loop.simps) (simp add: rd_n_def Let_def)
    have nn: "nat rd_n + nat (remains - rd_n) = nat remains"
      using pos True by (simp add: rd_n_def)
    have chunk: "buf @ take (nat (remains - rd_n)) (drop (infile_pos s + length buf) (infile_data s))
        = take (nat remains) (drop (infile_pos s) (infile_data s))"
      using take_append_take_drop [of "nat rd_n" "drop (infile_pos s) (infile_data s)" "nat (remains - rd_n)"]
      by (simp add: buf_def nn add.commute)
    have data2: "infile_data s2 = infile_data s" "infile_pos s2 = infile_pos s + length buf"
      by (simp_all add: s2_def s1_def)
    show ?thesis
      unfolding step less.hyps [OF smaller o2] data2
      using chunk [symmetric]
      by (simp add: s2_def s1_def)
  qed
qed

lemma copy_loop_total:
  assumes buf: "0 < bsz"
  shows "\<exists>r. copy_loop E wp bsz remains s = Some r \<and> LOG (outcome_state r) = LOG s \<and>
    (\<forall>e. raised r = Some e \<longrightarrow> (\<exists>n. read_raises E n = Some e) \<or> (\<exists>n. write_raises E wp n = Some e))"
proof (induction "nat remains" arbitrary: remains s rule: less_induct)
  case less
  show ?case
  proof (cases "0 < remains")
    case False
    then show ?thesis by (subst copy_loop.simps) (simp add: raised_def)
  next
    case True
    define rd_n where "rd_n = min remains bsz"
    have pos: "0 < rd_n" using True buf by (simp add: rd_n_def)
    have smaller: "nat (remains - rd_n) < nat remains" using pos True by simp
    show ?thesis
    proof (cases "infile_read E rd_n s")
      case (Inl a)
      then obtain e s1 where a: "infile_read E rd_n s = Inl (e, s1)" by (cases a) auto
      then have "read_raises E (infile_pos s) = Some e" "s1 = s"
        by (auto simp: infile_read_def Let_def split: option.splits)
      then show ?thesis using True a
        by (subst copy_loop.simps) (auto simp: rd_n_def Let_def raised_def)
    next
      case (Inr b)
      then obtain bs s1 where b: "infile_read E rd_n s = Inr (bs, s1)" by (cases b) auto
      then have l1: "LOG s1 = LOG s"
        by (auto simp: infile_read_def Let_def split: option.splits)
      show ?thesis
      proof (cases "f_write E wp bs s1")
        case (Raises e s2)
        then have "write_raises E wp (length (file_content s1 wp)) = Some e" "s2 = s1"
          by (auto simp: f_write_def split: option.splits)
        then show ?thesis using True b Raises l1
          by (subst copy_loop.simps) (auto simp: rd_n_def Let_def raised_def)
      next
        case (Returns s2)
        then have l2: "LOG s2 = LOG s1"
          by (auto simp: f_write_def split: option.splits)
        have step: "copy_loop E wp bsz remains s = copy_loop E wp bsz (remains - rd_n) s2"
          using True b Returns by (subst copy_loop.simps) (simp add: rd_n_def Let_def)
        from less.hyps [OF smaller, of s2] show ?thesis
          unfolding step l2 l1 by simp
      qed
    qed
  qed
qed

section \<open>Orphan recovery, step by step\<close>

lemma recover_file_total: "\<exists>r. recover_file E wp d s = Some r"
proof (cases "open_wb E wp s")
  case (Raises e s1)
  then show ?thesis by (simp add: recover_file_def)
next
  case (Returns s1)
  from copy_loop_total [OF bufsize_pos, of E wp "file_size d" s1]
  obtain r where "copy_loop E wp bufsize (file_size d) s1 = Some r" by blast
  with Returns show ?thesis by (cases r) (simp_all add: recover_file_def)
qed

lemma recover_file_returns:
  assumes "caught_errors_only E"
  shows "\<exists>s' rest. recover_file E wp d s = Some (Returns s') \<and> LOG s' = LOG s @ rest"
proof (cases "open_wb E wp s")
  case (Raises e s1)
  then have "open_raises E wp = Some e" "s1 = s"
    by (auto simp: open_wb_def split: option.splits)
  with assms have "e = OSError \<or> e = OverflowError"
    by (auto simp: caught_errors_only_def)
  with Raises \<open>s1 = s\<close> show ?thesis
    by (auto simp: recover_file_def file_handler_def log_record_def)
next
  case (Returns s1)
  then have l1: "LOG s1 = LOG s"
    by (auto simp: open_wb_def split: option.splits)
  from copy_loop_total [OF bufsize_pos, of E wp "file_size d" s1]
  obtain r where r: "copy_loop E wp bufsize (file_size d) s1 = Some r"
    "LOG (outcome_state r) = LOG s1"
    "\<forall>e. raised r = Some e \<longrightarrow>
       (\<exists>n. read_raises E n = Some e) \<or> (\<exists>n. write_raises E wp n = Some e)"
    by blast
  show ?thesis
  proof (cases r)
    case (Returns s2)
    with r l1 \<open>open_wb E wp s = Returns s1\<close> show ?thesis
      by (simp add: recover_file_def)
  next
    case (Raises e s2)
    with r(3) have "(\<exists>n. read_raises E n = Some e) \<or> (\<exists>n. write_raises E wp n = Some e)"
      by (simp add: raised_def)
    with assms have "e = OSError \<or> e = OverflowError"
      unfolding caught_errors_only_def by blast
    with Raises r l1 \<open>open_wb E wp s = Returns s1\<close> show ?thesis
      by (auto simp: recover_file_def file_handler_def log_record_def)
  qed
qed

lemma LOG_try_set_ts: "\<exists>rest. LOG (try_set_ts E d wp s) = LOG s @ rest"
  by (auto simp: try_set_ts_def set_ts_def log_record_def split: option.splits)

lemma LOG_try_set_ts_quiet:
  "set_ts_raises E wp = None \<Longrightarrow> LOG (try_set_ts E d wp s) = LOG s"
  by (simp add: try_set_ts_def set_ts_def)

lemma fs_files_try_set_ts: "fs_files (try_set_ts E d wp s) = fs_files s"
  by (simp add: try_set_ts_def set_ts_def log_record_def split: option.splits)

lemma try_set_ts_ok:
  "set_ts_raises E wp = None \<Longrightarrow>
   fs_times (try_set_ts E d wp s) wp = Some (creation_time d, last_write_time d, last_access_time d)"
  by (simp add: try_set_ts_def set_ts_def)

lemma try_set_ts_caught:
  "set_ts_raises E wp = Some e \<Longrightarrow> try_set_ts E d wp s = log_record Failed_to_set_timestamp s"
  by (simp add: try_set_ts_def set_ts_def)

lemma recover_file_case:
  "\<not> is_directory d \<Longrightarrow>
   recover E path d s =
     after_case E d (whole_path path d)
       (recover_file E (whole_path path d) d (entered E path d s))"
  by (cases d) (simp add: Let_def whole_path_def entered_def after_case_def)

lemma recover_dir_exists:
  "is_directory d \<Longrightarrow> path_exists (whole_path path d) (entered E path d s) \<Longrightarrow>
   recover E path d s =
     after_case E d (whole_path path d)
       (recover_children E (whole_path path d) (children d) (entered E path d s))"
  by (cases d) (simp add: Let_def whole_path_def entered_def after_case_def)

lemma recover_dir_fails:
  "is_directory d \<Longrightarrow> \<not> path_exists (whole_path path d) (entered E path d s) \<Longrightarrow>
   makedirs_raises E (whole_path path d) = Some e \<Longrightarrow>
   recover E path d s =
     (if e = OSError
      then Some (Returns (log_record (Failed_to_create_directory (whole_path path d))
                   (entered E path d s)))
      else Some (Raises e (entered E path d s)))"
  by (cases d) (simp add: Let_def whole_path_def entered_def makedirs_def)

lemma recover_dir_created:
  "is_directory d \<Longrightarrow> \<not> path_exists (whole_path path d) (entered E path d s) \<Longrightarrow>
   makedirs_raises E (whole_path path d) = None \<Longrightarrow>
   recover E path d s =
     after_case E d (whole_path path d)
       (recover_children E (whole_path path d) (children d)
         ((entered E path d s)\<lparr>fs_dirs :=
            insert (whole_path path d) (fs_dirs (entered E path d s))\<rparr>))"
  by (cases d) (simp add: Let_def whole_path_def entered_def makedirs_def after_case_def)

declare recover.simps [simp del]

lemma LOG_entered: "LOG (entered E path d s) = LOG s @ [Recovering (whole_path path d)]"
  by (simp add: entered_def log_record_def seek_to_cluster_def)

lemma path_exists_entered [simp]: "path_exists p (entered E path d s) = path_exists p s"
  by (simp add: path_exists_def entered_def log_record_def seek_to_cluster_def)

lemma after_case_Returns:
  "r = Some (Returns s) \<Longrightarrow> after_case E d wp r = Some (Returns (try_set_ts E d wp s))"
  by (simp add: after_case_def)

lemma after_case_attempts:
  assumes "r = Some (Returns s4)"
  shows "\<exists>s'. after_case E d wp r = Some (Returns s') \<and>
     (if set_ts_raises E wp = None
      then fs_times s' wp = Some (creation_time d, last_write_time d, last_access_time d)
      else LOG s' \<noteq> [] \<and> last (LOG s') = Failed_to_set_timestamp)"
proof (cases "set_ts_raises E wp")
  case None
  with assms show ?thesis by (simp add: after_case_def try_set_ts_ok)
next
  case (Some e)
  with assms show ?thesis by (simp add: after_case_def try_set_ts_caught log_record_def)
qed

lemma recover_returns_aux:
  "caught_errors_only E \<Longrightarrow> \<exists>s' rest. recover E p d s = Some (Returns s') \<and>
           LOG s' = LOG s @ Recovering (whole_path p d) # rest"
  "caught_errors_only E \<Longrightarrow>
     \<exists>s' rest. recover_children E p ds s = Some (Returns s') \<and> LOG s' = LOG s @ rest"
proof (induction E p d s and E p ds s rule: recover_recover_children.induct)
  case (1 E path fnb fname fc fsize attr ct wt at isdir chs s)
  note E = \<open>caught_errors_only E\<close>
  define self where "self = FatXOrphan fnb fname fc fsize attr ct wt at isdir chs"
  define wp where "wp = whole_path path self"
  define s2 where "s2 = entered E path self s"
  have l2: "LOG s2 = LOG s @ [Recovering wp]"
    by (simp add: s2_def wp_def LOG_entered)
  have sel: "is_directory self = isdir" "children self = chs" by (simp_all add: self_def)
  have IH_ex: "\<exists>s' rest. recover_children E wp chs s2 = Some (Returns s') \<and> LOG s' = LOG s2 @ rest"
    if "isdir" "path_exists wp s2"
    using "1.IH"(2) [OF refl refl refl refl] that E
    by (simp add: wp_def s2_def self_def whole_path_def entered_def)
  have IH_new: "\<exists>s' rest. recover_children E wp chs (s2\<lparr>fs_dirs := insert wp (fs_dirs s2)\<rparr>)
         = Some (Returns s') \<and> LOG s' = LOG s2 @ rest"
    if "isdir" "\<not> path_exists wp s2" "makedirs_raises E wp = None"
    using "1.IH"(1) [OF refl refl refl refl, of "s2\<lparr>fs_dirs := insert wp (fs_dirs s2)\<rparr>"] that E
    by (simp add: wp_def s2_def self_def whole_path_def entered_def makedirs_def)
  have "\<exists>s' rest. recover E path self s = Some (Returns s') \<and>
           LOG s' = LOG s @ Recovering wp # rest"
  proof (cases isdir)
    case False
    from recover_file_returns [OF E, of wp self s2]
    obtain s3 rest where f: "recover_file E wp self s2 = Some (Returns s3)" "LOG s3 = LOG s2 @ rest"
      by blast
    obtain rest' where "LOG (try_set_ts E self wp s3) = LOG s3 @ rest'"
      using LOG_try_set_ts by blast
    with f l2 False show ?thesis
      by (simp add: recover_file_case sel wp_def [symmetric] s2_def [symmetric] after_case_def)
  next
    case True
    show ?thesis
    proof (cases "path_exists wp s2")
      case ex: True
      from IH_ex [OF True ex]
      obtain s4 rest where c: "recover_children E wp chs s2 = Some (Returns s4)"
        "LOG s4 = LOG s2 @ rest"
        by blast
      obtain rest' where "LOG (try_set_ts E self wp s4) = LOG s4 @ rest'"
        using LOG_try_set_ts by blast
      with c ex True l2 show ?thesis
        using recover_dir_exists [of self path E s]
        by (simp add: sel wp_def [symmetric] s2_def [symmetric] after_case_def)
    next
      case nex: False
      show ?thesis
      proof (cases "makedirs_raises E wp")
        case (Some e)
        with E have "e = OSError" unfolding caught_errors_only_def by blast
        with Some nex True l2 show ?thesis
          using recover_dir_fails [of self path E s e]
          by (simp add: sel wp_def [symmetric] s2_def [symmetric] log_record_def)
      next
        case None
        from IH_new [OF True nex None]
        obtain s4 rest where c:
          "recover_children E wp chs (s2\<lparr>fs_dirs := insert wp (fs_dirs s2)\<rparr>) = Some (Returns s4)"
          "LOG s4 = LOG s2 @ rest"
          by blast
        obtain rest' where "LOG (try_set_ts E self wp s4) = LOG s4 @ rest'"
          using LOG_try_set_ts by blast
        with c nex True l2 None show ?thesis
          using recover_dir_created [of self path E s]
          by (simp add: sel wp_def [symmetric] s2_def [symmetric] after_case_def)
      qed
    qed
  qed
  then show ?case by (simp only: self_def wp_def)
next
  case (2 E whole_path s)
  then show ?case by simp
next
  case (3 E wp dirent rest s)
  from "3.IH"(1) [OF "3.prems"]
  obtain s1 r1 where a: "recover E wp dirent s = Some (Returns s1)"
    "LOG s1 = LOG s @ Recovering (whole_path wp dirent) # r1"
    by blast
  from "3.IH"(2) [OF a(1) refl "3.prems"]
  obtain s2 r2 where b: "recover_children E wp rest s1 = Some (Returns s2)"
    "LOG s2 = LOG s1 @ r2"
    by blast
  from a b show ?case by simp
qed

lemma recover_children_chain:
  assumes E: "caught_errors_only E"
  shows "\<exists>ss. length ss = Suc (length cs) \<and> ss ! 0 = s \<and>
     (\<forall>i<length cs. \<exists>rest.
        recover E wp (cs ! i) (ss ! i) = Some (Returns (ss ! Suc i)) \<and>
        LOG (ss ! Suc i) = LOG (ss ! i) @ Recovering (whole_path wp (cs ! i)) # rest) \<and>
     recover_children E wp cs s = Some (Returns (last ss))"
proof (induction cs arbitrary: s)
  case Nil
  show ?case by (rule exI [of _ "[s]"]) simp
next
  case (Cons c cs)
  from recover_returns_aux(1) [OF E, of wp c s]
  obtain s1 r1 where a: "recover E wp c s = Some (Returns s1)"
    "LOG s1 = LOG s @ Recovering (whole_path wp c) # r1"
    by blast
  from Cons.IH [of s1]
  obtain ss where ss: "length ss = Suc (length cs)" "ss ! 0 = s1"
    "\<forall>i<length cs. \<exists>rest.
        recover E wp (cs ! i) (ss ! i) = Some (Returns (ss ! Suc i)) \<and>
        LOG (ss ! Suc i) = LOG (ss ! i) @ Recovering (whole_path wp (cs ! i)) # rest"
    "recover_children E wp cs s1 = Some (Returns (last ss))"
    by blast
  have ne: "ss \<noteq> []" using ss(1) by auto
  have step: "\<exists>rest. recover E wp ((c # cs) ! i) ((s # ss) ! i) = Some (Returns ((s # ss) ! Suc i)) \<and>
        LOG ((s # ss) ! Suc i) = LOG ((s # ss) ! i) @ Recovering (whole_path wp ((c # cs) ! i)) # rest"
    if "i < length (c # cs)" for i
  proof (cases i)
    case 0
    with a ss(2) show ?thesis by simp
  next
    case (Suc j)
    with that have "j < length cs" by simp
    with ss(3) Suc show ?thesis by simp
  qed
  show ?case
  proof (rule exI [of _ "s # ss"], intro conjI allI impI)
    show "length (s # ss) = Suc (length (c # cs))" using ss(1) by simp
    show "(s # ss) ! 0 = s" by simp
    show "recover_children E wp (c # cs) s = Some (Returns (last (s # ss)))"
      using a(1) ss(4) ne by simp
  next
    fix i assume "i < length (c # cs)"
    then show "\<exists>rest. recover E wp ((c # cs) ! i) ((s # ss) ! i) = Some (Returns ((s # ss) ! Suc i)) \<and>
        LOG ((s # ss) ! Suc i) = LOG ((s # ss) ! i) @ Recovering (whole_path wp ((c # cs) ! i)) # rest"
      by (rule step)
  qed
qed

lemma recover_file_no_failure:
  assumes "\<not> is_directory d"
    and "open_raises E (whole_path path d) = None"
    and rd: "\<And>n. read_raises E n = None"
    and wr: "\<And>n. write_raises E (whole_path path d) n = None"
    and bsz: "0 < bsz"
  shows "recover E path d s =
     Some (Returns (try_set_ts E d (whole_path path d)
       ((entered E path d s)
          \<lparr>infile_pos := cluster_offset E (first_cluster d) +
              length (take (nat (file_size d)) (drop (cluster_offset E (first_cluster d)) (infile_data s))),
           fs_files := (fs_files s)(whole_path path d \<mapsto>
              take (nat (file_size d)) (drop (cluster_offset E (first_cluster d)) (infile_data s)))\<rparr>)))"
    and "copy_loop E (whole_path path d) bsz (file_size d)
           ((entered E path d s)\<lparr>fs_files := (fs_files s)(whole_path path d \<mapsto> [])\<rparr>) =
         copy_loop E (whole_path path d) bufsize (file_size d)
           ((entered E path d s)\<lparr>fs_files := (fs_files s)(whole_path path d \<mapsto> [])\<rparr>)"
proof -
  define wp where "wp = whole_path path d"
  define s2 where "s2 = entered E path d s"
  define s3 where "s3 = s2\<lparr>fs_files := (fs_files s)(wp \<mapsto> [])\<rparr>"
  have e: "infile_pos s2 = cluster_offset E (first_cluster d)" "infile_data s2 = infile_data s"
    "fs_files s2 = fs_files s"
    by (simp_all add: s2_def entered_def log_record_def seek_to_cluster_def)
  have o: "open_wb E wp s2 = Returns s3"
    using assms(2) by (simp add: open_wb_def wp_def s3_def e)
  have f3: "fs_files s3 wp = Some []" by (simp add: s3_def)
  have wr': "\<And>n. write_raises E wp n = None" using wr by (simp add: wp_def)
  note loop = copy_loop_no_failure [OF _ rd wr' f3]
  have "recover_file E wp d s2 =
    Some (Returns (s3\<lparr>infile_pos := infile_pos s3 +
                       length (take (nat (file_size d)) (drop (infile_pos s3) (infile_data s3))),
                    fs_files := (fs_files s3)(wp \<mapsto>
                       [] @ take (nat (file_size d)) (drop (infile_pos s3) (infile_data s3)))\<rparr>))"
    by (simp add: recover_file_def Let_def o loop [OF bufsize_pos])
  then show "recover E path d s =
     Some (Returns (try_set_ts E d (whole_path path d)
       ((entered E path d s)
          \<lparr>infile_pos := cluster_offset E (first_cluster d) +
              length (take (nat (file_size d)) (drop (cluster_offset E (first_cluster d)) (infile_data s))),
           fs_files := (fs_files s)(whole_path path d \<mapsto>
              take (nat (file_size d)) (drop (cluster_offset E (first_cluster d)) (infile_data s)))\<rparr>)))"
    using assms(1)
    by (simp add: recover_file_case wp_def [symmetric] s2_def [symmetric] after_case_def s3_def e)
  show "copy_loop E (whole_path path d) bsz (file_size d)
           ((entered E path d s)\<lparr>fs_files := (fs_files s)(whole_path path d \<mapsto> [])\<rparr>) =
         copy_loop E (whole_path path d) bufsize (file_size d)
           ((entered E path d s)\<lparr>fs_files := (fs_files s)(whole_path path d \<mapsto> [])\<rparr>)"
    unfolding wp_def [symmetric] s2_def [symmetric] s3_def [symmetric]
    by (simp only: loop [OF bsz] loop [OF bufsize_pos])
qed

lemma quiet_env_caught: "caught_errors_only quiet_env"
  by (simp add: caught_errors_only_def quiet_env_def)

lemma mkdir_fails_env_caught: "caught_errors_only mkdir_fails_env"
  by (simp add: caught_errors_only_def quiet_env_def mkdir_fails_env_def)

lemma example_dir_sel:
  "is_directory example_dir" "file_name example_dir = ''DIR''" "first_cluster example_dir = 10"
  "children example_dir = [hello_txt]" "creation_time example_dir = Some ts_2020"
  "last_write_time example_dir = Some ts_2020" "last_access_time example_dir = Some ts_2020"
  by (simp_all add: example_dir_def)

lemma hello_txt_sel:
  "\<not> is_directory hello_txt" "file_name hello_txt = ''HELLO.TXT''" "first_cluster hello_txt = 10"
  "file_size hello_txt = 4096"
  "children hello_txt = []" "creation_time hello_txt = Some ts_2020"
  "last_write_time hello_txt = Some ts_2020" "last_access_time hello_txt = Some ts_2020"
  by (simp_all add: hello_txt_def example_entry_def)

lemma short_file_sel:
  "\<not> is_directory short_file" "file_name short_file = ''HELLO.TXT''" "first_cluster short_file = 1"
  "file_size short_file = 5" "creation_time short_file = Some ts_2020"
  "last_write_time short_file = Some ts_2020" "last_access_time short_file = Some ts_2020"
  by (simp_all add: short_file_def example_entry_def)

section \<open>The properties of orphan recovery\<close>

text \<open>
  C2 (as amended). For a file entry, when \<open>open\<close>, \<open>read\<close> and \<open>write\<close> do not raise,
  \<open>recover\<close> returns and leaves in the destination file the volume bytes that begin at the
  byte offset of the first cluster, \<open>file_size\<close> of them or, when the volume ends before,
  those up to its end: \<open>min file_size (length of the volume - offset)\<close> bytes. The copy loop
  gives the same result for every positive chunk size.
\<close>

theorem recover_file_content:
  assumes "\<not> is_directory d"
    and "open_raises E (whole_path path d) = None"
    and "\<forall>n. read_raises E n = None"
    and "\<forall>n. write_raises E (whole_path path d) n = None"
  shows
    "(\<exists>s' written. recover E path d s = Some (Returns s') \<and>
        fs_files s' (whole_path path d) = Some written \<and>
        written =
          take (nat (file_size d)) (drop (cluster_offset E (first_cluster d)) (infile_data s)) \<and>
        length written =
          min (nat (file_size d)) (length (infile_data s) - cluster_offset E (first_cluster d))) \<and>
     (\<forall>bsz>0.
        copy_loop E (whole_path path d) bsz (file_size d)
          ((entered E path d s)\<lparr>fs_files := (fs_files s)(whole_path path d \<mapsto> [])\<rparr>) =
        copy_loop E (whole_path path d) bufsize (file_size d)
          ((entered E path d s)\<lparr>fs_files := (fs_files s)(whole_path path d \<mapsto> [])\<rparr>))"
proof (intro conjI allI impI)
  from assms(3,4) have rd: "\<And>n. read_raises E n = None"
    and wr: "\<And>n. write_raises E (whole_path path d) n = None" by simp_all
  note r = recover_file_no_failure [OF assms(1,2) rd wr]
  show "\<exists>s' written. recover E path d s = Some (Returns s') \<and>
        fs_files s' (whole_path path d) = Some written \<and>
        written =
          take (nat (file_size d)) (drop (cluster_offset E (first_cluster d)) (infile_data s)) \<and>
        length written =
          min (nat (file_size d)) (length (infile_data s) - cluster_offset E (first_cluster d))"
    by (simp add: r(1) [OF bufsize_pos] fs_files_try_set_ts min.commute)
  fix bsz :: int assume "0 < bsz"
  then show "copy_loop E (whole_path path d) bsz (file_size d)
          ((entered E path d s)\<lparr>fs_files := (fs_files s)(whole_path path d \<mapsto> [])\<rparr>) =
        copy_loop E (whole_path path d) bufsize (file_size d)
          ((entered E path d s)\<lparr>fs_files := (fs_files s)(whole_path path d \<mapsto> [])\<rparr>)"
    by (rule r(2))
qed

theorem recover_file_content_witness:
  "(\<exists>s'. recover quiet_env ''/out'' hello_txt (fresh_world (replicate 8192 0x5A)) = Some (Returns s') \<and>
      fs_files s' ''/out/HELLO.TXT'' = Some (replicate 4096 0x5A)) \<and>
   copy_loop quiet_env ''/out/HELLO.TXT'' 1 (file_size hello_txt)
     ((entered quiet_env ''/out'' hello_txt (fresh_world (replicate 8192 0x5A)))
        \<lparr>fs_files := [''/out/HELLO.TXT'' \<mapsto> []]\<rparr>) =
   copy_loop quiet_env ''/out/HELLO.TXT'' bufsize (file_size hello_txt)
     ((entered quiet_env ''/out'' hello_txt (fresh_world (replicate 8192 0x5A)))
        \<lparr>fs_files := [''/out/HELLO.TXT'' \<mapsto> []]\<rparr>)"
proof -
  have wp: "whole_path ''/out'' hello_txt = ''/out/HELLO.TXT''"
    by (simp add: whole_path_def hello_txt_sel)
  have h: "\<not> is_directory hello_txt" "open_raises quiet_env (whole_path ''/out'' hello_txt) = None"
    "\<forall>n. read_raises quiet_env n = None"
    "\<forall>n. write_raises quiet_env (whole_path ''/out'' hello_txt) n = None"
    by (simp_all add: hello_txt_sel quiet_env_def)
  have c: "cluster_offset quiet_env 10 = 144"
    by (simp add: quiet_env_def)
  have f: "fs_files (fresh_world (replicate 8192 0x5A)) = Map.empty"
    "infile_data (fresh_world (replicate 8192 0x5A)) = replicate 8192 0x5A"
    by (simp_all add: fresh_world_def)
  from recover_file_content [OF h, of "fresh_world (replicate 8192 0x5A)"]
  show ?thesis
    by (simp add: wp c f hello_txt_sel)
qed

text \<open>
  C2, the claim as stated fails: a plausible file entry of \<open>file_size\<close> 5 at offset 0 of a
  volume of 3 bytes, no call raising; \<open>recover\<close> writes the 3 bytes there are, not 5.
\<close>

theorem recover_short_volume_counterexample:
  "is_valid 1000 2026 short_file \<and> \<not> is_directory short_file \<and> file_size short_file = 5 \<and>
   recover quiet_env ''/out'' short_file (fresh_world [1, 2, 3]) =
     Some (Returns ((fresh_world [1, 2, 3])\<lparr>infile_pos := 3,
       fs_files := [''/out/HELLO.TXT'' \<mapsto> [1, 2, 3]],
       fs_times := [''/out/HELLO.TXT'' \<mapsto> (Some ts_2020, Some ts_2020, Some ts_2020)],
       LOG := [Recovering ''/out/HELLO.TXT'']\<rparr>))"
proof -
  have v: "is_valid 1000 2026 short_file"
    by (simp add: short_file_def is_valid_example_entry hello_bytes_valid ts_2020_valid)
  have r: "recover quiet_env ''/out'' short_file (fresh_world [1, 2, 3]) =
     Some (Returns ((fresh_world [1, 2, 3])\<lparr>infile_pos := 3,
       fs_files := [''/out/HELLO.TXT'' \<mapsto> [1, 2, 3]],
       fs_times := [''/out/HELLO.TXT'' \<mapsto> (Some ts_2020, Some ts_2020, Some ts_2020)],
       LOG := [Recovering ''/out/HELLO.TXT'']\<rparr>))"
    by (subst recover_file_no_failure(1) [OF short_file_sel(1) _ _ _ bufsize_pos])
      (simp_all add: quiet_env_def whole_path_def short_file_sel entered_def log_record_def
        seek_to_cluster_def fresh_world_def try_set_ts_def set_ts_def)
  from v r short_file_sel show ?thesis by simp
qed

text \<open>
  C3 (as amended). When the only failures are those the handlers of \<open>recover\<close> catch,
  \<open>recover\<close> returns normally. Unless the entry is a directory whose creation fails, the
  timestamps are then applied to the created path, or, when \<open>_set_ts\<close> raises (whatever it
  raises), the failure is logged last and not propagated. When the creation of the
  directory fails, \<open>recover\<close> logs that and returns at once: no restoration is attempted.
\<close>

theorem recover_timestamps_best_effort:
  assumes E: "caught_errors_only E"
  shows "\<exists>s'. recover E path d s = Some (Returns s') \<and>
     (if is_directory d \<and> \<not> path_exists (whole_path path d) s \<and>
         makedirs_raises E (whole_path path d) \<noteq> None
      then s' = log_record (Failed_to_create_directory (whole_path path d)) (entered E path d s)
      else if set_ts_raises E (whole_path path d) = None
      then fs_times s' (whole_path path d) =
             Some (creation_time d, last_write_time d, last_access_time d)
      else LOG s' \<noteq> [] \<and> last (LOG s') = Failed_to_set_timestamp)"
proof (cases "is_directory d")
  case False
  from recover_file_returns [OF E]
  obtain s3 where "recover_file E (whole_path path d) d (entered E path d s) = Some (Returns s3)"
    by blast
  from after_case_attempts [OF this, of E d "whole_path path d"] False
  show ?thesis by (simp add: recover_file_case)
next
  case True
  show ?thesis
  proof (cases "path_exists (whole_path path d) s")
    case ex: True
    from recover_returns_aux(2) [OF E]
    obtain s4 where "recover_children E (whole_path path d) (children d) (entered E path d s)
        = Some (Returns s4)"
      by blast
    from after_case_attempts [OF this, of E d "whole_path path d"] True ex
    show ?thesis by (simp add: recover_dir_exists)
  next
    case nex: False
    show ?thesis
    proof (cases "makedirs_raises E (whole_path path d)")
      case (Some e)
      with E have "e = OSError" unfolding caught_errors_only_def by blast
      with Some True nex show ?thesis by (simp add: recover_dir_fails)
    next
      case None
      from recover_returns_aux(2) [OF E]
      obtain s4 where "recover_children E (whole_path path d) (children d)
         ((entered E path d s)\<lparr>fs_dirs :=
            insert (whole_path path d) (fs_dirs (entered E path d s))\<rparr>) = Some (Returns s4)"
        by blast
      from after_case_attempts [OF this, of E d "whole_path path d"] True nex None
      show ?thesis by (simp add: recover_dir_created)
    qed
  qed
qed

theorem recover_timestamps_best_effort_witness:
  "(\<exists>s'. recover quiet_env ''/out'' hello_txt (fresh_world (replicate 8192 0x5A)) = Some (Returns s') \<and>
      fs_times s' ''/out/HELLO.TXT'' = Some (Some ts_2020, Some ts_2020, Some ts_2020)) \<and>
   (\<exists>s'. recover (quiet_env\<lparr>set_ts_raises := (\<lambda>p. Some OtherError)\<rparr>) ''/out'' example_dir
           (fresh_world (replicate 8192 0x5A)) = Some (Returns s') \<and>
      last (LOG s') = Failed_to_set_timestamp)"
proof -
  have c: "caught_errors_only (quiet_env\<lparr>set_ts_raises := (\<lambda>p. Some OtherError)\<rparr>)"
    by (simp add: caught_errors_only_def quiet_env_def)
  have 1: "\<exists>s'. recover quiet_env ''/out'' hello_txt (fresh_world (replicate 8192 0x5A)) = Some (Returns s') \<and>
      fs_times s' ''/out/HELLO.TXT'' = Some (Some ts_2020, Some ts_2020, Some ts_2020)"
    using recover_timestamps_best_effort [OF quiet_env_caught, of "''/out''" hello_txt
        "fresh_world (replicate 8192 0x5A)"]
    by (simp add: hello_txt_sel whole_path_def quiet_env_def)
  have 2: "\<exists>s'. recover (quiet_env\<lparr>set_ts_raises := (\<lambda>p. Some OtherError)\<rparr>) ''/out'' example_dir
           (fresh_world (replicate 8192 0x5A)) = Some (Returns s') \<and>
      last (LOG s') = Failed_to_set_timestamp"
    using recover_timestamps_best_effort [OF c, of "''/out''" example_dir
        "fresh_world (replicate 8192 0x5A)"]
    by (auto simp: example_dir_sel whole_path_def quiet_env_def path_exists_def fresh_world_def)
  from 1 2 show ?thesis by simp
qed

text \<open>
  C3, the claim as stated fails: the directory case fails (\<open>os.makedirs\<close> raises \<open>OSError\<close>) and
  \<open>recover\<close> returns without attempting the restoration, which would not have raised: no
  timestamp is applied to the path and nothing but the two records is logged.
\<close>

theorem recover_skips_timestamps_counterexample:
  "is_directory example_dir \<and>
   set_ts_raises mkdir_fails_env ''/out/DIR'' = None \<and>
   recover mkdir_fails_env ''/out'' example_dir (fresh_world []) =
     Some (Returns ((fresh_world [])\<lparr>infile_pos := 144,
        LOG := [Recovering ''/out/DIR'', Failed_to_create_directory ''/out/DIR'']\<rparr>)) \<and>
   fs_times ((fresh_world [])\<lparr>infile_pos := 144,
        LOG := [Recovering ''/out/DIR'', Failed_to_create_directory ''/out/DIR'']\<rparr>) ''/out/DIR'' = None"
proof -
  have d: "is_directory example_dir" by (simp add: example_dir_sel)
  have w: "whole_path ''/out'' example_dir = ''/out/DIR''"
    by (simp add: whole_path_def example_dir_sel)
  have n: "\<not> path_exists (whole_path ''/out'' example_dir) (entered mkdir_fails_env ''/out'' example_dir (fresh_world []))"
    by (simp add: w, simp add: path_exists_def fresh_world_def)
  have m: "makedirs_raises mkdir_fails_env (whole_path ''/out'' example_dir) = Some OSError"
    by (simp add: mkdir_fails_env_def)
  show ?thesis
    using recover_dir_fails [OF d n m]
    by (simp add: d w entered_def log_record_def seek_to_cluster_def fresh_world_def
        mkdir_fails_env_def quiet_env_def example_dir_sel)
qed

text \<open>
  C5. For a directory entry, with failures of the operating-system level only: when the
  destination path exists already, or \<open>os.makedirs\<close> does not raise, \<open>recover\<close> returns
  normally, having recovered every child in the order of \<open>children\<close>, each from the state the
  one before left, each into \<open>whole_path + '/' + \<close> the child's name (its \<open>Recovering\<close> record
  is the first it logs), starting from the state entered, to which the directory has been
  added unless the path existed. When the creation fails, \<open>recover\<close> logs it and returns
  with the directories and files of the output tree untouched, no child recovered, and the
  caller's loop goes on with the siblings.
\<close>

theorem recover_directory:
  assumes dir: "is_directory d" and E: "caught_errors_only E"
  shows
    "(path_exists (whole_path path d) s \<or> makedirs_raises E (whole_path path d) = None \<longrightarrow>
       (\<exists>ss. length ss = Suc (length (children d)) \<and>
          ss ! 0 = dir_ready E path d s \<and>
          (\<forall>i<length (children d). \<exists>rest.
             recover E (whole_path path d) (children d ! i) (ss ! i) = Some (Returns (ss ! Suc i)) \<and>
             LOG (ss ! Suc i) =
               LOG (ss ! i) @ Recovering (whole_path path d @ ''/'' @ file_name (children d ! i)) # rest) \<and>
          recover E path d s = Some (Returns (try_set_ts E d (whole_path path d) (last ss))))) \<and>
     (\<not> path_exists (whole_path path d) s \<and> makedirs_raises E (whole_path path d) \<noteq> None \<longrightarrow>
       recover E path d s =
         Some (Returns (log_record (Failed_to_create_directory (whole_path path d))
                 (entered E path d s))) \<and>
       fs_dirs (log_record (Failed_to_create_directory (whole_path path d))
                 (entered E path d s)) = fs_dirs s \<and>
       fs_files (log_record (Failed_to_create_directory (whole_path path d))
                 (entered E path d s)) = fs_files s \<and>
       (\<forall>siblings. recover_children E path (d # siblings) s =
          recover_children E path siblings
            (log_record (Failed_to_create_directory (whole_path path d)) (entered E path d s))))"
proof (intro conjI impI)
  assume ok: "path_exists (whole_path path d) s \<or> makedirs_raises E (whole_path path d) = None"
  from recover_children_chain [OF E, of "children d" "dir_ready E path d s" "whole_path path d"]
  obtain ss where ss: "length ss = Suc (length (children d))" "ss ! 0 = dir_ready E path d s"
    "\<forall>i<length (children d). \<exists>rest.
        recover E (whole_path path d) (children d ! i) (ss ! i) = Some (Returns (ss ! Suc i)) \<and>
        LOG (ss ! Suc i) =
          LOG (ss ! i) @ Recovering (whole_path (whole_path path d) (children d ! i)) # rest"
    "recover_children E (whole_path path d) (children d) (dir_ready E path d s)
       = Some (Returns (last ss))"
    by blast
  have fd: "fs_dirs (entered E path d s) = fs_dirs s"
    by (simp add: entered_def log_record_def seek_to_cluster_def)
  have r: "recover E path d s = Some (Returns (try_set_ts E d (whole_path path d) (last ss)))"
  proof (cases "path_exists (whole_path path d) s")
    case True
    with dir ss(4) show ?thesis
      by (simp add: recover_dir_exists dir_ready_def after_case_def)
  next
    case False
    with ok have "makedirs_raises E (whole_path path d) = None" by simp
    with False dir ss(4) show ?thesis
      by (simp add: recover_dir_created dir_ready_def after_case_def fd)
  qed
  from ss(1,2) ss(3) [unfolded whole_path_def [of "whole_path path d"]] r
  show "\<exists>ss. length ss = Suc (length (children d)) \<and>
          ss ! 0 = dir_ready E path d s \<and>
          (\<forall>i<length (children d). \<exists>rest.
             recover E (whole_path path d) (children d ! i) (ss ! i) = Some (Returns (ss ! Suc i)) \<and>
             LOG (ss ! Suc i) =
               LOG (ss ! i) @ Recovering (whole_path path d @ ''/'' @ file_name (children d ! i)) # rest) \<and>
          recover E path d s = Some (Returns (try_set_ts E d (whole_path path d) (last ss)))"
    by blast
next
  assume f: "\<not> path_exists (whole_path path d) s \<and> makedirs_raises E (whole_path path d) \<noteq> None"
  then obtain e where e: "makedirs_raises E (whole_path path d) = Some e" by auto
  with E have "e = OSError" unfolding caught_errors_only_def by blast
  with e f dir show r: "recover E path d s =
         Some (Returns (log_record (Failed_to_create_directory (whole_path path d))
                 (entered E path d s)))"
    by (simp add: recover_dir_fails)
  show "fs_dirs (log_record (Failed_to_create_directory (whole_path path d))
                 (entered E path d s)) = fs_dirs s"
    and "fs_files (log_record (Failed_to_create_directory (whole_path path d))
                 (entered E path d s)) = fs_files s"
    by (simp_all add: log_record_def entered_def seek_to_cluster_def)
  from r show "\<forall>siblings. recover_children E path (d # siblings) s =
          recover_children E path siblings
            (log_record (Failed_to_create_directory (whole_path path d)) (entered E path d s))"
    by simp
qed

theorem recover_directory_witness:
  "(\<exists>s' rest. recover quiet_env ''/out'' example_dir (fresh_world (replicate 8192 0x5A)) =
        Some (Returns s') \<and>
      LOG s' = Recovering ''/out/DIR'' # Recovering ''/out/DIR/HELLO.TXT'' # rest) \<and>
   recover_children mkdir_fails_env ''/out'' [example_dir, hello_txt] (fresh_world []) =
   recover_children mkdir_fails_env ''/out'' [hello_txt]
     ((fresh_world [])\<lparr>infile_pos := 144,
        LOG := [Recovering ''/out/DIR'', Failed_to_create_directory ''/out/DIR'']\<rparr>)"
proof -
  let ?w = "fresh_world (replicate 8192 0x5A)"
  have wp: "whole_path ''/out'' example_dir = ''/out/DIR''"
    by (simp add: whole_path_def example_dir_sel)
  have nex: "\<not> path_exists ''/out/DIR'' ?w" "\<not> path_exists ''/out/DIR'' (fresh_world [])"
    by (simp_all add: path_exists_def fresh_world_def)
  have mk: "makedirs_raises quiet_env ''/out/DIR'' = None"
    "makedirs_raises mkdir_fails_env ''/out/DIR'' \<noteq> None"
    by (simp_all add: quiet_env_def mkdir_fails_env_def)
  from recover_directory [OF example_dir_sel(1) quiet_env_caught, of "''/out''" ?w] mk(1)
  obtain ss rest where ss: "length ss = Suc (Suc 0)" "ss ! 0 = dir_ready quiet_env ''/out'' example_dir ?w"
    "LOG (ss ! Suc 0) = LOG (ss ! 0) @ Recovering ''/out/DIR/HELLO.TXT'' # rest"
    "recover quiet_env ''/out'' example_dir ?w =
       Some (Returns (try_set_ts quiet_env example_dir ''/out/DIR'' (last ss)))"
    by (auto simp: wp example_dir_sel hello_txt_sel)
  have l: "last ss = ss ! Suc 0" using ss(1) by (auto simp: length_Suc_conv)
  have l0: "LOG (ss ! 0) = [Recovering ''/out/DIR'']"
    by (simp add: ss(2) dir_ready_def wp nex LOG_entered fresh_world_def)
  have 1: "\<exists>s' rest. recover quiet_env ''/out'' example_dir ?w = Some (Returns s') \<and>
      LOG s' = Recovering ''/out/DIR'' # Recovering ''/out/DIR/HELLO.TXT'' # rest"
    using ss(3,4) l l0 by (simp add: LOG_try_set_ts_quiet quiet_env_def)
  from recover_directory [OF example_dir_sel(1) mkdir_fails_env_caught, of "''/out''" "fresh_world []"]
    mk(2) nex(2)
  have 2: "recover_children mkdir_fails_env ''/out'' [example_dir, hello_txt] (fresh_world []) =
   recover_children mkdir_fails_env ''/out'' [hello_txt]
     ((fresh_world [])\<lparr>infile_pos := 144,
        LOG := [Recovering ''/out/DIR'', Failed_to_create_directory ''/out/DIR'']\<rparr>)"
    by (simp add: wp entered_def log_record_def seek_to_cluster_def fresh_world_def
        mkdir_fails_env_def quiet_env_def example_dir_sel del: recover_children.simps)
  from 1 2 show ?thesis by blast
qed

section \<open>\<open>str\<close> is injective\<close>

declare str_nat.simps [simp del]

lemma str_nat_nonempty: "str_nat n \<noteq> []"
  by (subst str_nat.simps) simp

lemma of_char_digit_char: "n < 10 \<Longrightarrow> (of_char (digit_char n) :: nat) = 48 + n"
  by (simp add: digit_char_def)

lemma digit_char_inj:
  assumes "a < 10" and "b < 10" and e: "digit_char a = digit_char b"
  shows "a = b"
proof -
  have "48 + a = (of_char (digit_char a) :: nat)" using assms(1) by (simp only: of_char_digit_char)
  also have "\<dots> = of_char (digit_char b)" by (simp only: e)
  also have "\<dots> = 48 + b" using assms(2) by (simp only: of_char_digit_char)
  finally show ?thesis by (simp only: add_left_cancel)
qed

lemma str_nat_inj: "str_nat m = str_nat n \<Longrightarrow> m = n"
proof (induction m arbitrary: n rule: str_nat.induct)
  case (1 m)
  show ?case
  proof (cases "m < 10")
    case True
    then have m: "str_nat m = [digit_char m]" by (subst str_nat.simps) simp
    show ?thesis
    proof (cases "n < 10")
      case n: True
      then have "str_nat n = [digit_char n]" by (subst str_nat.simps) simp
      with m "1.prems" True n show ?thesis using digit_char_inj [of m n] by simp
    next
      case False
      then have "str_nat n = str_nat (n div 10) @ [digit_char (n mod 10)]"
        by (subst str_nat.simps) simp
      with m "1.prems" have "str_nat (n div 10) = []" by simp
      with str_nat_nonempty show ?thesis by blast
    qed
  next
    case False
    then have m: "str_nat m = str_nat (m div 10) @ [digit_char (m mod 10)]"
      by (subst str_nat.simps) simp
    show ?thesis
    proof (cases "n < 10")
      case True
      then have "str_nat n = [digit_char n]" by (subst str_nat.simps) simp
      with m "1.prems" have "str_nat (m div 10) = []" by simp
      with str_nat_nonempty show ?thesis by blast
    next
      case n: False
      then have "str_nat n = str_nat (n div 10) @ [digit_char (n mod 10)]"
        by (subst str_nat.simps) simp
      with m "1.prems" have e: "str_nat (m div 10) = str_nat (n div 10)"
        "digit_char (m mod 10) = digit_char (n mod 10)" by simp_all
      from "1.IH" [OF False e(1)] have d: "m div 10 = n div 10" .
      from e(2) have r: "m mod 10 = n mod 10"
        using digit_char_inj [of "m mod 10" "n mod 10"] by simp
      have "m = 10 * (m div 10) + m mod 10" "n = 10 * (n div 10) + n mod 10" by simp_all
      with d r show ?thesis by simp
    qed
  qed
qed

lemma str_int_inj: "0 \<le> i \<Longrightarrow> 0 \<le> j \<Longrightarrow> str i = str j \<Longrightarrow> i = j"
  by (auto simp: str_def dest: str_nat_inj)

lemma str_of_nat_inj: "str (int x) = str (int y) \<Longrightarrow> x = y"
  using str_int_inj [of "int x" "int y"] by simp

section \<open>Naming, step by step\<close>

lemma getattr_own:
  "cs (cls_id c) = Some n \<Longrightarrow> getattr_Unnamed_Counter c cs = Some n"
  by (simp add: getattr_Unnamed_Counter_def List.map_filter_simps)

lemma getattr_bases_None:
  assumes "\<forall>b \<in> set (cls_bases c). cs b = None"
  shows "getattr_Unnamed_Counter c cs = cs (cls_id c)"
proof -
  have "List.map_filter cs (cls_bases c) = []"
    using assms by (induction "cls_bases c") (auto simp: List.map_filter_def)
  then show ?thesis
    by (cases "cs (cls_id c)") (simp_all add: getattr_Unnamed_Counter_def List.map_filter_simps)
qed

lemma not_hasattr_iff:
  "\<not> hasattr_Unnamed_Counter c cs \<longleftrightarrow>
     cs (cls_id c) = None \<and> (\<forall>b \<in> set (cls_bases c). cs b = None)"
proof -
  have "List.map_filter cs xs = [] \<longleftrightarrow> (\<forall>b \<in> set xs. cs b = None)" for xs
    by (induction xs) (auto simp: List.map_filter_def)
  from this [of "cls_id c # cls_bases c"] show ?thesis
    by (auto simp: hasattr_Unnamed_Counter_def getattr_Unnamed_Counter_def split: list.splits)
qed

lemma get_file_name_named:
  "name self = Some fname \<Longrightarrow> get_file_name self s = Inr (fname, s)"
  by (simp add: get_file_name_def)

lemma get_file_name_unnamed:
  assumes "name self = None"
  shows "\<exists>n. get_file_name self s =
     Inr (auto_name (cls self) n, s\<lparr>Unnamed_Counter := (Unnamed_Counter s)(cls_id (cls self) \<mapsto> n + 1)\<rparr>) \<and>
     n = (case getattr_Unnamed_Counter (cls self) (Unnamed_Counter s) of None \<Rightarrow> 1 | Some m \<Rightarrow> m)"
proof (cases "getattr_Unnamed_Counter (cls self) (Unnamed_Counter s)")
  case None
  have "getattr_Unnamed_Counter (cls self) ((Unnamed_Counter s)(cls_id (cls self) \<mapsto> 1)) = Some 1"
    by (rule getattr_own) simp
  with None assms show ?thesis
    by (simp add: get_file_name_def hasattr_Unnamed_Counter_def Let_def auto_name_def)
next
  case (Some m)
  with assms show ?thesis
    by (simp add: get_file_name_def hasattr_Unnamed_Counter_def Let_def auto_name_def)
qed

lemma get_file_name_returns: "\<exists>fname s1. get_file_name self s = Inr (fname, s1)"
proof (cases "name self")
  case None
  from get_file_name_unnamed [OF this, of s] show ?thesis by blast
next
  case (Some a)
  then show ?thesis by (simp add: get_file_name_named)
qed

lemma get_file_name_frame:
  assumes "get_file_name self s = Inr (fname, s1)"
  shows "\<exists>cs. s1 = s\<lparr>Unnamed_Counter := cs\<rparr>"
proof (cases "name self")
  case None
  from get_file_name_unnamed [OF this, of s] assms show ?thesis by auto
next
  case (Some a)
  with assms have "s1 = s" by (simp add: get_file_name_named)
  then have "s1 = s\<lparr>Unnamed_Counter := Unnamed_Counter s\<rparr>" by simp
  then show ?thesis by blast
qed

lemma names_given_Cons:
  "names_given c (self # calls) (fname # fnames) =
     (if unnamed_of c self then fname # names_given c calls fnames else names_given c calls fnames)"
  by (simp add: names_given_def)

lemma get_file_names_general:
  assumes "\<forall>self \<in> set calls. cls_id (cls self) \<notin> set (cls_bases c)"
    and "\<forall>self \<in> set calls. cls_id (cls self) = cls_id c \<longrightarrow> cls self = c"
    and "\<forall>b \<in> set (cls_bases c). Unnamed_Counter s b = None"
  shows "\<exists>fnames s'. get_file_names calls s = Inr (fnames, s') \<and> length fnames = length calls \<and>
      names_given c calls fnames =
        map (\<lambda>i. auto_name c (next_number c s + int i)) [0..<length (filter (unnamed_of c) calls)] \<and>
      next_number c s' = next_number c s + int (length (filter (unnamed_of c) calls))"
  using assms
proof (induction calls arbitrary: s)
  case Nil
  show ?case by (simp add: names_given_def)
next
  case (Cons self calls)
  note anc = Cons.prems(1) and ident = Cons.prems(2) and bases = Cons.prems(3)
  have anc': "\<forall>self \<in> set calls. cls_id (cls self) \<notin> set (cls_bases c)"
    and ident': "\<forall>self \<in> set calls. cls_id (cls self) = cls_id c \<longrightarrow> cls self = c"
    using anc ident by simp_all
  show ?case
  proof (cases "name self")
    case (Some fname)
    then have u: "\<not> unnamed_of c self" by (simp add: unnamed_of_def)
    from Cons.IH [OF anc' ident' bases]
    obtain fnames s' where r: "get_file_names calls s = Inr (fnames, s')" "length fnames = length calls"
      "names_given c calls fnames =
        map (\<lambda>i. auto_name c (next_number c s + int i)) [0..<length (filter (unnamed_of c) calls)]"
      "next_number c s' = next_number c s + int (length (filter (unnamed_of c) calls))"
      by blast
    with Some u show ?thesis
      by (simp add: get_file_name_named names_given_Cons)
  next
    case None
    from get_file_name_unnamed [OF None, of s]
    obtain n where g: "get_file_name self s =
       Inr (auto_name (cls self) n,
            s\<lparr>Unnamed_Counter := (Unnamed_Counter s)(cls_id (cls self) \<mapsto> n + 1)\<rparr>)"
      "n = (case getattr_Unnamed_Counter (cls self) (Unnamed_Counter s) of None \<Rightarrow> 1 | Some m \<Rightarrow> m)"
      by blast
    define s1 where "s1 = s\<lparr>Unnamed_Counter := (Unnamed_Counter s)(cls_id (cls self) \<mapsto> n + 1)\<rparr>"
    have g1: "get_file_name self s = Inr (auto_name (cls self) n, s1)"
      by (simp only: g(1) s1_def)
    have notbase: "cls_id (cls self) \<notin> set (cls_bases c)" using anc by simp
    then have bases1: "\<forall>b \<in> set (cls_bases c). Unnamed_Counter s1 b = None"
      using bases by (auto simp: s1_def)
    from Cons.IH [OF anc' ident' bases1]
    obtain fnames s' where r: "get_file_names calls s1 = Inr (fnames, s')" "length fnames = length calls"
      "names_given c calls fnames =
        map (\<lambda>i. auto_name c (next_number c s1 + int i)) [0..<length (filter (unnamed_of c) calls)]"
      "next_number c s' = next_number c s1 + int (length (filter (unnamed_of c) calls))"
      by blast
    show ?thesis
    proof (cases "cls self = c")
      case True
      then have u: "unnamed_of c self" using None by (simp add: unnamed_of_def)
      have "getattr_Unnamed_Counter c (Unnamed_Counter s) = Unnamed_Counter s (cls_id c)"
        using bases by (rule getattr_bases_None)
      with g(2) True have n: "n = next_number c s" by (simp add: next_number_def)
      have n1: "next_number c s1 = next_number c s + 1"
        using True n by (simp add: next_number_def s1_def)
      have "map (\<lambda>i. auto_name c (next_number c s + int i))
              [0..<Suc (length (filter (unnamed_of c) calls))] =
            auto_name c (next_number c s) #
            map (\<lambda>i. auto_name c (next_number c s + 1 + int i))
              [0..<length (filter (unnamed_of c) calls)]"
        by (simp add: map_upt_Suc add.assoc del: upt_Suc)
      with r g1 u n n1 True show ?thesis
        by (simp add: names_given_Cons del: upt_Suc)
    next
      case False
      then have u: "\<not> unnamed_of c self" by (simp add: unnamed_of_def)
      from False ident have "cls_id (cls self) \<noteq> cls_id c" by auto
      then have n1: "next_number c s1 = next_number c s"
        by (simp add: next_number_def s1_def)
      with r g1 u show ?thesis
        by (simp add: names_given_Cons)
    qed
  qed
qed

lemma auto_names_distinct: "distinct (map (\<lambda>i. auto_name c (int i)) [1..<Suc k])"
proof -
  have "inj_on (\<lambda>i. auto_name c (int i)) (set [1..<Suc k])"
    by (rule inj_onI) (simp add: auto_name_def str_of_nat_inj del: upt_Suc)
  then show ?thesis by (simp add: distinct_map del: upt_Suc)
qed

lemma shift_upt: "map (\<lambda>i. f (1 + int i)) [0..<k] = map (\<lambda>i. f (int i)) [1..<Suc k]"
proof -
  have "map (\<lambda>i. f (int i)) [1..<Suc k] = map (\<lambda>i. f (int i)) (map Suc [0..<k])"
    by (simp only: map_Suc_upt One_nat_def)
  then show ?thesis by (simp add: o_def del: upt_Suc)
qed

lemma foo_names:
  "lower ''FooSignature'' @ str 1 = ''foosignature1''"
  "lower ''FooSignature'' @ str 2 = ''foosignature2''"
  by code_simp+

lemma inherited_names:
  "lower ''ChildSignature'' @ str 3 = ''childsignature3''"
  "lower ''ChildSignature'' @ str 4 = ''childsignature4''"
  "lower ''FatXSignature'' @ str 1 = ''fatxsignature1''"
  by code_simp+

lemma get_file_name_foo:
  "get_file_name (foo_sig n None) (fresh_world bs) =
     Inr (''foosignature1'', (fresh_world bs)\<lparr>Unnamed_Counter := [1 \<mapsto> 2]\<rparr>)"
  by (simp add: get_file_name_def foo_sig_def FooSignature_def hasattr_Unnamed_Counter_def
      getattr_Unnamed_Counter_def List.map_filter_simps fresh_world_def Let_def foo_names)

lemma signature_recover_skip:
  assumes "get_file_name self s = Inr (fname, s1)"
    and "open_raises E (path @ ''/'' @ fname) = None"
    and "length_sig self = 0 \<or> 0xffffffff \<le> length_sig self"
  shows "signature_recover E path self s =
     Returns (s1\<lparr>fs_files := (fs_files s1)(path @ ''/'' @ fname \<mapsto> [])\<rparr>)"
  using assms by (auto simp: signature_recover_def open_wb_def Let_def)

lemma signature_recover_read:
  assumes "get_file_name self s = Inr (fname, s1)"
    and "open_raises E (path @ ''/'' @ fname) = None"
    and "read_raises E (file_area_offset E (offset self)) = None"
    and "write_raises E (path @ ''/'' @ fname) 0 = None"
    and "0 < length_sig self" "length_sig self < 0xffffffff"
  shows "\<exists>s'. signature_recover E path self s = Returns s' \<and>
     fs_files s' (path @ ''/'' @ fname) =
       Some (take (nat (length_sig self)) (drop (file_area_offset E (offset self)) (infile_data s))) \<and>
     infile_pos s' = file_area_offset E (offset self) +
       length (take (nat (length_sig self)) (drop (file_area_offset E (offset self)) (infile_data s)))"
proof -
  from get_file_name_frame [OF assms(1)] obtain cs where s1: "s1 = s\<lparr>Unnamed_Counter := cs\<rparr>"
    by blast
  show ?thesis
    using assms
    by (simp add: signature_recover_def open_wb_def Let_def seek_def seek_file_area_def
        signature_read_def infile_read_def f_write_def file_content_def s1)
qed

lemma signature_recover_creates:
  assumes "get_file_name self s = Inr (fname, s1)"
    and "open_raises E (path @ ''/'' @ fname) = None"
  shows "fs_files (outcome_state (signature_recover E path self s)) (path @ ''/'' @ fname) \<noteq> None"
  using assms
  by (auto simp: signature_recover_def open_wb_def Let_def seek_def seek_file_area_def
      signature_read_def infile_read_def f_write_def file_content_def
      split: option.splits)

section \<open>The properties of the signatures\<close>

text \<open>
  Where the numbering is per class. From a state in which the class \<open>c\<close> has no
  \<open>Unnamed_Counter\<close>, its own or inherited, and for any sequence of calls of \<open>get_file_name\<close>
  none of which is on an ancestor class of \<open>c\<close> (instances of other classes, named or not):
  the names given to the unnamed instances of \<open>c\<close> are, in order, the lowercased class name
  followed by 1, 2, ..., N, where N is the number of those instances; they are pairwise
  distinct; the number of the class starts at 1 and stands at N + 1 afterwards. This is
  the case of the classes that inherit from the base class directly, as long as no name
  is asked of an instance of the base class itself.
\<close>

lemma get_file_name_numbers:
  assumes "\<not> hasattr_Unnamed_Counter c (Unnamed_Counter s)"
    and "\<forall>self \<in> set calls. cls_id (cls self) \<notin> set (cls_bases c)"
    and "\<forall>self \<in> set calls. cls_id (cls self) = cls_id c \<longrightarrow> cls self = c"
  shows "\<exists>fnames s'. get_file_names calls s = Inr (fnames, s') \<and> length fnames = length calls \<and>
      names_given c calls fnames =
        map (\<lambda>i. lower (cls_name c) @ str (int i)) [1..<Suc (length (filter (unnamed_of c) calls))] \<and>
      distinct (names_given c calls fnames) \<and>
      ((\<forall>self \<in> set calls. unnamed_of c self) \<longrightarrow> names_given c calls fnames = fnames) \<and>
      next_number c s = 1 \<and>
      next_number c s' = 1 + int (length (filter (unnamed_of c) calls))"
proof -
  from assms(1) have none: "Unnamed_Counter s (cls_id c) = None"
    and bases: "\<forall>b \<in> set (cls_bases c). Unnamed_Counter s b = None"
    by (simp_all add: not_hasattr_iff)
  from none have one: "next_number c s = 1" by (simp add: next_number_def)
  from get_file_names_general [OF assms(2,3) bases]
  obtain fnames s' where r: "get_file_names calls s = Inr (fnames, s')" "length fnames = length calls"
    "names_given c calls fnames =
       map (\<lambda>i. auto_name c (next_number c s + int i)) [0..<length (filter (unnamed_of c) calls)]"
    "next_number c s' = next_number c s + int (length (filter (unnamed_of c) calls))"
    by blast
  have names: "names_given c calls fnames =
      map (\<lambda>i. auto_name c (int i)) [1..<Suc (length (filter (unnamed_of c) calls))]"
    using r(3) by (simp only: one shift_upt)
  have all: "names_given c calls fnames = fnames" if "\<forall>self \<in> set calls. unnamed_of c self"
  proof -
    have "filter (\<lambda>p. unnamed_of c (fst p)) (zip calls fnames) = zip calls fnames"
      using that by (auto simp: filter_id_conv dest: set_zip_leftD)
    then show ?thesis using r(2) by (simp add: names_given_def)
  qed
  from r(1,2) names auto_names_distinct [of c] all one r(4)
  show ?thesis by (auto simp: auto_name_def simp del: upt_Suc)
qed

lemma get_file_name_numbers_example:
  "\<exists>fnames s'.
     get_file_names [foo_sig 16 None, bar_sig, foo_sig 0 (Some ''default.xbe''), foo_sig 0 None]
       (fresh_world []) = Inr (fnames, s') \<and>
     names_given FooSignature
       [foo_sig 16 None, bar_sig, foo_sig 0 (Some ''default.xbe''), foo_sig 0 None] fnames =
       [''foosignature1'', ''foosignature2'']"
proof -
  let ?calls = "[foo_sig 16 None, bar_sig, foo_sig 0 (Some ''default.xbe''), foo_sig 0 None]"
  have fresh: "\<not> hasattr_Unnamed_Counter FooSignature (Unnamed_Counter (fresh_world []))"
    by (simp add: hasattr_Unnamed_Counter_def getattr_Unnamed_Counter_def List.map_filter_simps
        fresh_world_def FooSignature_def)
  have anc: "\<forall>self \<in> set ?calls. cls_id (cls self) \<notin> set (cls_bases FooSignature)"
    by (simp add: foo_sig_def bar_sig_def FooSignature_def BarSignature_def)
  have ident: "\<forall>self \<in> set ?calls. cls_id (cls self) = cls_id FooSignature \<longrightarrow> cls self = FooSignature"
    by (simp add: foo_sig_def bar_sig_def FooSignature_def BarSignature_def)
  have k: "length (filter (unnamed_of FooSignature) ?calls) = 2"
    by (simp add: unnamed_of_def foo_sig_def bar_sig_def FooSignature_def BarSignature_def)
  have u: "[1..<Suc 2] = [1, 2]" by (simp add: upt_rec)
  from get_file_name_numbers [OF fresh anc ident] show ?thesis
    unfolding k u by (auto simp: FooSignature_def foo_names)
qed

text \<open>
  C9 (the code departs from the claim). The claim: for every concrete signature type, the
  unnamed instances get the lowercased type name followed by 1, 2, ..., N, the counter of
  the type starting at 1. The code: \<open>hasattr\<close> also finds the counter a class inherits. At
  the start of a run \<open>ChildSignature\<close>, which inherits from \<open>FooSignature\<close>, has no counter;
  after two unnamed instances of \<open>FooSignature\<close> have been named, its own first two unnamed
  instances are named \<open>childsignature3\<close> and \<open>childsignature4\<close>. Likewise, once an instance
  of the base class has been named, the first unnamed instance of \<open>FooSignature\<close> is named
  \<open>foosignature2\<close>.
\<close>

theorem get_file_name_inherits_counter:
  "\<not> hasattr_Unnamed_Counter ChildSignature (Unnamed_Counter (fresh_world [])) \<and>
   get_file_names [foo_sig 0 None, foo_sig 0 None, child_sig, child_sig] (fresh_world []) =
     Inr ([''foosignature1'', ''foosignature2'', ''childsignature3'', ''childsignature4''],
          (fresh_world [])\<lparr>Unnamed_Counter := [1 \<mapsto> 3, 3 \<mapsto> 5]\<rparr>) \<and>
   get_file_names [base_sig, foo_sig 0 None] (fresh_world []) =
     Inr ([''fatxsignature1'', ''foosignature2''],
          (fresh_world [])\<lparr>Unnamed_Counter := [0 \<mapsto> 2, 1 \<mapsto> 3]\<rparr>)"
  by (simp add: get_file_name_def hasattr_Unnamed_Counter_def getattr_Unnamed_Counter_def
      List.map_filter_simps Let_def foo_sig_def child_sig_def base_sig_def FooSignature_def
      ChildSignature_def FatXSignature_class_def fresh_world_def foo_names inherited_names)

theorem get_file_name_inherits_counter_witness:
  "names_given ChildSignature [foo_sig 0 None, foo_sig 0 None, child_sig, child_sig]
     [''foosignature1'', ''foosignature2'', ''childsignature3'', ''childsignature4''] =
     [''childsignature3'', ''childsignature4''] \<and>
   (\<exists>s'. get_file_names [foo_sig 0 None, foo_sig 0 None, child_sig, child_sig] (fresh_world []) =
     Inr ([''foosignature1'', ''foosignature2'', ''childsignature3'', ''childsignature4''], s'))"
  using get_file_name_inherits_counter
  by (simp add: names_given_def unnamed_of_def foo_sig_def child_sig_def FooSignature_def
      ChildSignature_def)

text \<open>
  C4. When \<open>open\<close>, \<open>read\<close> and \<open>write\<close> do not raise, the default \<open>recover\<close> of a signature
  with \<open>0 < length < 0xffffffff\<close> leaves in the file \<open>path + '/' + get_file_name()\<close> the
  volume bytes that begin at the signature's offset in the file area, at most \<open>length\<close> of
  them. With \<open>length\<close> 0 or \<open>0xffffffff\<close> it creates the file, empty, and reads nothing (the
  cursor and the volume are as \<open>get_file_name\<close> left them). With \<open>length\<close> 16 at offset
  \<open>0x1000\<close> of a volume that holds 16 bytes there, the file holds exactly those 16 bytes.
\<close>

theorem signature_recover_extracts:
  assumes "get_file_name self s = Inr (fname, s1)"
    and "open_raises E (path @ ''/'' @ fname) = None"
    and "read_raises E (file_area_offset E (offset self)) = None"
    and "write_raises E (path @ ''/'' @ fname) 0 = None"
  shows
    "(0 < length_sig self \<and> length_sig self < 0xffffffff \<longrightarrow>
       (\<exists>s' written. signature_recover E path self s = Returns s' \<and>
          fs_files s' (path @ ''/'' @ fname) = Some written \<and>
          written = take (nat (length_sig self))
                      (drop (file_area_offset E (offset self)) (infile_data s)) \<and>
          length written \<le> nat (length_sig self))) \<and>
     (length_sig self = 0 \<or> length_sig self = 0xffffffff \<longrightarrow>
       signature_recover E path self s =
         Returns (s1\<lparr>fs_files := (fs_files s1)(path @ ''/'' @ fname \<mapsto> [])\<rparr>)) \<and>
     (length_sig self = 16 \<and> offset self = 0x1000 \<and>
      file_area_offset E 0x1000 + 16 \<le> length (infile_data s) \<longrightarrow>
       (\<exists>s' written. signature_recover E path self s = Returns s' \<and>
          fs_files s' (path @ ''/'' @ fname) = Some written \<and>
          written = take 16 (drop (file_area_offset E 0x1000) (infile_data s)) \<and>
          length written = 16))"
proof (intro conjI impI)
  assume l: "0 < length_sig self \<and> length_sig self < 0xffffffff"
  from signature_recover_read [OF assms] l
  show "\<exists>s' written. signature_recover E path self s = Returns s' \<and>
          fs_files s' (path @ ''/'' @ fname) = Some written \<and>
          written = take (nat (length_sig self))
                      (drop (file_area_offset E (offset self)) (infile_data s)) \<and>
          length written \<le> nat (length_sig self)"
    by auto
next
  assume "length_sig self = 0 \<or> length_sig self = 0xffffffff"
  then have "length_sig self = 0 \<or> 0xffffffff \<le> length_sig self" by auto
  from signature_recover_skip [OF assms(1,2) this]
  show "signature_recover E path self s =
         Returns (s1\<lparr>fs_files := (fs_files s1)(path @ ''/'' @ fname \<mapsto> [])\<rparr>)" .
next
  assume a: "length_sig self = 16 \<and> offset self = 0x1000 \<and>
      file_area_offset E 0x1000 + 16 \<le> length (infile_data s)"
  then have "0 < length_sig self" "length_sig self < 0xffffffff" by simp_all
  from signature_recover_read [OF assms this] a
  show "\<exists>s' written. signature_recover E path self s = Returns s' \<and>
          fs_files s' (path @ ''/'' @ fname) = Some written \<and>
          written = take 16 (drop (file_area_offset E 0x1000) (infile_data s)) \<and>
          length written = 16"
    by auto
qed

theorem signature_recover_extracts_witness:
  "(\<exists>s'. signature_recover quiet_env ''/out'' (foo_sig 16 None) (fresh_world carved_volume) = Returns s' \<and>
      fs_files s' ''/out/foosignature1'' =
        Some [0x58, 0x42, 0x45, 0x48, 1, 2, 3, 4, 5, 6, 7, 8, 9, 10, 11, 12]) \<and>
   signature_recover quiet_env ''/out'' (foo_sig 0 None) (fresh_world carved_volume) =
     Returns ((fresh_world carved_volume)\<lparr>fs_files := [''/out/foosignature1'' \<mapsto> []],
        Unnamed_Counter := [1 \<mapsto> 2]\<rparr>) \<and>
   signature_recover quiet_env ''/out'' (foo_sig 0xffffffff None) (fresh_world carved_volume) =
     Returns ((fresh_world carved_volume)\<lparr>fs_files := [''/out/foosignature1'' \<mapsto> []],
        Unnamed_Counter := [1 \<mapsto> 2]\<rparr>)"
proof -
  have env: "open_raises quiet_env (''/out'' @ ''/'' @ ''foosignature1'') = None"
    "write_raises quiet_env (''/out'' @ ''/'' @ ''foosignature1'') 0 = None"
    "\<And>n. read_raises quiet_env n = None" "file_area_offset quiet_env 0x1000 = 0x1000"
    by (simp_all add: quiet_env_def)
  have sel: "\<And>n. length_sig (foo_sig n None) = n" "\<And>n. offset (foo_sig n None) = 0x1000"
    by (simp_all add: foo_sig_def)
  have data: "infile_data (fresh_world carved_volume) = carved_volume"
    "fs_files (fresh_world carved_volume) = Map.empty"
    by (simp_all add: fresh_world_def)
  have bytes: "take 16 (drop 0x1000 carved_volume) =
      [0x58, 0x42, 0x45, 0x48, 1, 2, 3, 4, 5, 6, 7, 8, 9, 10, 11, 12]"
    "4096 + 16 \<le> length carved_volume"
    by (simp_all add: carved_volume_def)
  note thm16 = signature_recover_extracts [OF get_file_name_foo env(1) env(3) env(2),
      of 16 carved_volume]
  note thm0 = signature_recover_extracts [OF get_file_name_foo env(1) env(3) env(2),
      of 0 carved_volume]
  note thmS = signature_recover_extracts [OF get_file_name_foo env(1) env(3) env(2),
      of "0xffffffff" carved_volume]
  have 1: "\<exists>s'. signature_recover quiet_env ''/out'' (foo_sig 16 None) (fresh_world carved_volume) = Returns s' \<and>
      fs_files s' ''/out/foosignature1'' =
        Some [0x58, 0x42, 0x45, 0x48, 1, 2, 3, 4, 5, 6, 7, 8, 9, 10, 11, 12]"
    using thm16 bytes by (simp add: sel env(4) data)
  have 2: "signature_recover quiet_env ''/out'' (foo_sig 0 None) (fresh_world carved_volume) =
     Returns ((fresh_world carved_volume)\<lparr>fs_files := [''/out/foosignature1'' \<mapsto> []],
        Unnamed_Counter := [1 \<mapsto> 2]\<rparr>)"
    using thm0 by (simp add: sel data)
  have 3: "signature_recover quiet_env ''/out'' (foo_sig 0xffffffff None) (fresh_world carved_volume) =
     Returns ((fresh_world carved_volume)\<lparr>fs_files := [''/out/foosignature1'' \<mapsto> []],
        Unnamed_Counter := [1 \<mapsto> 2]\<rparr>)"
    using thmS by (simp add: sel data)
  from 1 2 3 show ?thesis by simp
qed

text \<open>
  C10. When \<open>open\<close> does not raise, the file at \<open>path + '/' + get_file_name()\<close> exists after
  the default \<open>recover\<close>, whatever \<open>length\<close> is and whether or not \<open>read\<close> or \<open>write\<close> raise;
  and for \<open>length\<close> 0 and for every \<open>length\<close> from \<open>0xffffffff\<close> on, nothing is read and the
  file is left empty (an existing file is truncated).
\<close>

theorem signature_recover_always_creates:
  assumes "get_file_name self s = Inr (fname, s1)"
    and "open_raises E (path @ ''/'' @ fname) = None"
  shows
    "fs_files (outcome_state (signature_recover E path self s)) (path @ ''/'' @ fname) \<noteq> None \<and>
     (length_sig self = 0 \<or> 0xffffffff \<le> length_sig self \<longrightarrow>
        signature_recover E path self s =
          Returns (s1\<lparr>fs_files := (fs_files s1)(path @ ''/'' @ fname \<mapsto> [])\<rparr>))"
  using signature_recover_creates [OF assms] signature_recover_skip [OF assms] by blast

theorem signature_recover_always_creates_witness:
  "fs_files (outcome_state (signature_recover quiet_env ''/out'' (foo_sig 16 None)
      (fresh_world carved_volume))) ''/out/foosignature1'' \<noteq> None \<and>
   signature_recover quiet_env ''/out'' (foo_sig 0x100000000 None)
      ((fresh_world carved_volume)\<lparr>fs_files := [''/out/foosignature1'' \<mapsto> [9, 9]]\<rparr>) =
     Returns ((fresh_world carved_volume)\<lparr>fs_files := [''/out/foosignature1'' \<mapsto> []],
        Unnamed_Counter := [1 \<mapsto> 2]\<rparr>)"
proof -
  have env: "open_raises quiet_env (''/out'' @ ''/'' @ ''foosignature1'') = None"
    by (simp add: quiet_env_def)
  have g: "get_file_name (foo_sig 0x100000000 None)
      ((fresh_world carved_volume)\<lparr>fs_files := [''/out/foosignature1'' \<mapsto> [9, 9]]\<rparr>) =
     Inr (''foosignature1'', (fresh_world carved_volume)\<lparr>fs_files := [''/out/foosignature1'' \<mapsto> [9, 9]],
        Unnamed_Counter := [1 \<mapsto> 2]\<rparr>)"
    by (simp add: get_file_name_def foo_sig_def FooSignature_def hasattr_Unnamed_Counter_def
      getattr_Unnamed_Counter_def List.map_filter_simps fresh_world_def Let_def foo_names)
  have 1: "fs_files (outcome_state (signature_recover quiet_env ''/out'' (foo_sig 16 None)
      (fresh_world carved_volume))) ''/out/foosignature1'' \<noteq> None"
    using signature_recover_always_creates [OF get_file_name_foo env, of 16 carved_volume]
    by simp
  have 2: "signature_recover quiet_env ''/out'' (foo_sig 0x100000000 None)
      ((fresh_world carved_volume)\<lparr>fs_files := [''/out/foosignature1'' \<mapsto> [9, 9]]\<rparr>) =
     Returns ((fresh_world carved_volume)\<lparr>fs_files := [''/out/foosignature1'' \<mapsto> []],
        Unnamed_Counter := [1 \<mapsto> 2]\<rparr>)"
    using signature_recover_always_creates [OF g env]
    by (simp add: foo_sig_def)
  from 1 2 show ?thesis by simp
qed

end
